theory Spec2Isabelle
  imports Main "HOL-Library.Multiset"
begin

section \<open>JavaScript strings\<close>

text \<open>
  A JavaScript string is modelled as a \<open>string\<close> (a list of \<open>char\<close>): one \<open>char\<close>
  stands for one code unit, restricted to the range 0..255. The string methods that
  \<^verbatim>\<open>search.js\<close> calls are written out below with the meaning they have on that range.
\<close>

definition startsWith :: "string \<Rightarrow> string \<Rightarrow> bool" where
  "startsWith s p = (take (length p) s = p)"

fun includes_str :: "string \<Rightarrow> string \<Rightarrow> bool" where
  "includes_str [] needle = (needle = [])"
| "includes_str (c # cs) needle = (startsWith (c # cs) needle \<or> includes_str cs needle)"

text \<open>
  \<^verbatim>\<open>String.prototype.trim\<close> strips white space and line terminators from both ends. In
  the modelled range these are TAB, LF, VT, FF, CR, SPACE and NBSP.
\<close>

definition isWhiteSpace :: "char \<Rightarrow> bool" where
  "isWhiteSpace c = (c \<in> {CHR 0x09, CHR 0x0A, CHR 0x0B, CHR 0x0C, CHR 0x0D, CHR 0x20, CHR 0xA0})"

definition trim :: "string \<Rightarrow> string" where
  "trim s = rev (dropWhile isWhiteSpace (rev (dropWhile isWhiteSpace s)))"

text \<open>
  \<^verbatim>\<open>toLowerCase\<close>, code unit by code unit: the upper case letters of the modelled range
  are A to Z and 0xC0 to 0xDE without the multiplication sign 0xD7, and each has its lower
  case form 32 above it.
\<close>

definition toLowerChar :: "char \<Rightarrow> char" where
  "toLowerChar c =
     (let n = (of_char c :: nat)
      in if (65 \<le> n \<and> n \<le> 90) \<or> (192 \<le> n \<and> n \<le> 222 \<and> n \<noteq> 215) then char_of (n + 32)
         else c)"

definition toLowerCase :: "string \<Rightarrow> string" where
  "toLowerCase s = map toLowerChar s"

text \<open>\<^verbatim>\<open>s.split(sep)\<close> for a one-character separator: never empty, \<^verbatim>\<open>"".split(sep)\<close> is \<^verbatim>\<open>[""]\<close>.\<close>

fun split_str :: "char \<Rightarrow> string \<Rightarrow> string list" where
  "split_str sep [] = [[]]"
| "split_str sep (c # cs) =
     (if c = sep then [] # split_str sep cs
      else (case split_str sep cs of
              [] \<Rightarrow> [[c]]
            | w # ws \<Rightarrow> (c # w) # ws))"

fun join_str :: "string \<Rightarrow> string list \<Rightarrow> string" where
  "join_str sep [] = []"
| "join_str sep [w] = w"
| "join_str sep (w # v # ws) = w @ sep @ join_str sep (v # ws)"

section \<open>Data model\<close>

text \<open>The records that \<^verbatim>\<open>searchInFile\<close> builds: one per matching line, one per matching file.\<close>

record LineMatch =
  lineNumber :: nat
  line :: string
  matchCount :: nat

text \<open>
  The per-file field \<^verbatim>\<open>totalMatches\<close> is named \<open>totalMatches_f\<close> here; the plain name is
  kept for the field of the record that \<^verbatim>\<open>performSearch\<close> returns.
\<close>

record FileMatchResult =
  filePath :: string
  fileName :: string
  relativePath :: string
  category :: string
  matches :: "LineMatch list"
  totalMatches_f :: nat

text \<open>
  The per-project state object of \<^verbatim>\<open>getSearchState\<close>. The \<^verbatim>\<open>categories\<close> object is an
  association list in key insertion order; \<^verbatim>\<open>lastSearchTime\<close> is a time stamp or null.
\<close>

record SearchState =
  searchTerm :: string
  caseSensitive :: bool
  wholeWords :: bool
  categories :: "(string \<times> bool) list"
  results :: "FileMatchResult list"
  lastSearchTime :: "nat option"

text \<open>
  The \<^verbatim>\<open>IGSearch\<close> object: the constructor's two fields and \<^verbatim>\<open>currentIgFolder\<close>, which
  is undefined until \<^verbatim>\<open>setCurrentIgFolder\<close> is called.
\<close>

record IGSearch =
  maxResults :: int
  searchStates :: "string \<rightharpoonup> SearchState"
  currentIgFolder :: "string option"

definition constructor :: IGSearch where
  "constructor = \<lparr>maxResults = 200, searchStates = Map.empty, currentIgFolder = None\<rparr>"

section \<open>State store\<close>

definition defaultSearchState :: SearchState where
  "defaultSearchState =
     \<lparr>searchTerm = '''',
      caseSensitive = False,
      wholeWords = False,
      categories =
        [(''fsh'', True), (''inputResources'', True), (''inputPages'', True),
         (''translations'', True), (''outputResources'', False), (''outputHtml'', False)],
      results = [],
      lastSearchTime = None\<rparr>"

text \<open>
  \<^verbatim>\<open>getSearchState\<close> stores a default state on first access, so it returns the state
  together with the updated object.
\<close>

definition getSearchState :: "IGSearch \<Rightarrow> string \<Rightarrow> SearchState \<times> IGSearch" where
  "getSearchState this igFolder =
     (case searchStates this igFolder of
        None \<Rightarrow>
          (defaultSearchState,
           this\<lparr>searchStates := (searchStates this)(igFolder \<mapsto> defaultSearchState)\<rparr>)
      | Some state \<Rightarrow> (state, this))"

definition saveSearchState :: "IGSearch \<Rightarrow> string \<Rightarrow> SearchState \<Rightarrow> IGSearch" where
  "saveSearchState this igFolder state =
     this\<lparr>searchStates := (searchStates this)(igFolder \<mapsto> state)\<rparr>"

text \<open>
  \<^verbatim>\<open>clearOutputResults\<close> assigns the filtered list to the \<^verbatim>\<open>results\<close> field of the stored
  object and saves that object again.
\<close>

definition clearOutputResults :: "IGSearch \<Rightarrow> string \<Rightarrow> IGSearch" where
  "clearOutputResults this igFolder =
     (let (state, this1) = getSearchState this igFolder;
          state' = state\<lparr>results := filter (\<lambda>result. \<not> startsWith (category result) ''output'')
                                         (results state)\<rparr>
      in saveSearchState this1 igFolder state')"

definition setCurrentIgFolder :: "IGSearch \<Rightarrow> string \<Rightarrow> IGSearch" where
  "setCurrentIgFolder this igFolder = this\<lparr>currentIgFolder := Some igFolder\<rparr>"

text \<open>The six category names: the keys of the default \<^verbatim>\<open>categories\<close> object.\<close>

definition categoryNames :: "string list" where
  "categoryNames = map fst (categories defaultSearchState)"

section \<open>Node's \<^verbatim>\<open>path\<close> module\<close>

text \<open>
  The POSIX variant of \<^verbatim>\<open>path.normalize\<close>, \<^verbatim>\<open>path.join\<close>, \<^verbatim>\<open>path.basename\<close>,
  \<^verbatim>\<open>path.extname\<close> and \<^verbatim>\<open>path.relative\<close>. \<open>normalizeSegments\<close> drops empty and
  \<^verbatim>\<open>.\<close> segments and resolves \<^verbatim>\<open>..\<close>; the flag says whether \<^verbatim>\<open>..\<close> may climb above the
  start (a relative path) or not (an absolute one). The accumulator is reversed.
\<close>

fun normalizeSegments :: "bool \<Rightarrow> string list \<Rightarrow> string list \<Rightarrow> string list" where
  "normalizeSegments allowAboveRoot acc [] = rev acc"
| "normalizeSegments allowAboveRoot acc (seg # segs) =
     (if seg = '''' \<or> seg = ''.'' then normalizeSegments allowAboveRoot acc segs
      else if seg = ''..'' then
        (case acc of
           [] \<Rightarrow> normalizeSegments allowAboveRoot (if allowAboveRoot then [''..''] else []) segs
         | a # as \<Rightarrow>
             if a = ''..''
             then normalizeSegments allowAboveRoot (if allowAboveRoot then ''..'' # acc else acc) segs
             else normalizeSegments allowAboveRoot as segs)
      else normalizeSegments allowAboveRoot (seg # acc) segs)"

definition path_normalize :: "string \<Rightarrow> string" where
  "path_normalize p =
     (if p = [] then ''.''
      else
        (let isAbsolute = (hd p = CHR ''/'');
             trailingSeparator = (last p = CHR ''/'');
             body = join_str ''/'' (normalizeSegments (\<not> isAbsolute) [] (split_str CHR ''/'' p))
         in if body = [] then (if isAbsolute then ''/'' else if trailingSeparator then ''./'' else ''.'')
            else (if isAbsolute then ''/'' else '''') @ body @ (if trailingSeparator then ''/'' else '''')))"

definition path_join :: "string list \<Rightarrow> string" where
  "path_join args =
     (let joined = filter (\<lambda>arg. arg \<noteq> []) args
      in if joined = [] then ''.'' else path_normalize (join_str ''/'' joined))"

definition basename :: "string \<Rightarrow> string" where
  "basename p =
     (let stripped = rev (dropWhile (\<lambda>c. c = CHR ''/'') (rev p))
      in rev (takeWhile (\<lambda>c. c \<noteq> CHR ''/'') (rev stripped)))"

text \<open>
  \<^verbatim>\<open>extname\<close>: from the last dot of the base name to its end; empty when there is no
  dot, when the only dot is the first character, and for \<^verbatim>\<open>..\<close>.
\<close>

definition extname :: "string \<Rightarrow> string" where
  "extname p =
     (let base = basename p;
          afterDot = rev (takeWhile (\<lambda>c. c \<noteq> CHR ''.'') (rev base))
      in if CHR ''.'' \<notin> set base then ''''
         else
           (let startDot = length base - length afterDot - 1
            in if startDot = 0 \<or> base = ''..'' then '''' else drop startDot base))"

text \<open>
  \<^verbatim>\<open>path.relative\<close> resolves both paths to absolute ones first. The process working
  directory is taken to be the root, so the segments of a path are its normalized
  segments counted from the root.
\<close>

definition pathSegments :: "string \<Rightarrow> string list" where
  "pathSegments p = normalizeSegments False [] (split_str CHR ''/'' p)"

fun commonPrefixLength :: "string list \<Rightarrow> string list \<Rightarrow> nat" where
  "commonPrefixLength (a # as) (b # bs) = (if a = b then Suc (commonPrefixLength as bs) else 0)"
| "commonPrefixLength _ _ = 0"

definition path_relative :: "string \<Rightarrow> string \<Rightarrow> string" where
  "path_relative fromPath toPath =
     (let a = pathSegments fromPath;
          b = pathSegments toPath;
          n = commonPrefixLength a b
      in join_str ''/'' (replicate (length a - n) ''..'' @ drop n b))"

section \<open>The file system\<close>

text \<open>
  The file system is a tree, given by its root directory. A directory lists its entries
  by name in the order \<^verbatim>\<open>readdirSync\<close> returns them. Besides readable files and
  directories there are the nodes on which the calls of \<^verbatim>\<open>search.js\<close> fail: a file
  that cannot be read, a directory that cannot be listed, an entry whose \<^verbatim>\<open>statSync\<close>
  throws (a dangling link), and an entry that is neither file nor directory.
\<close>

datatype fsnode =
    File string
  | UnreadableFile
  | Dir "(string \<times> fsnode) list"
  | UnreadableDir
  | Dangling
  | Special

datatype exn = Error string

definition message :: "exn \<Rightarrow> string" where
  "message e = (case e of Error m \<Rightarrow> m)"

text \<open>
  Path resolution walks the segments of the path from the root (which is also taken as
  the working directory). The first argument of \<open>fs_walk\<close> is the node reached, followed
  by its ancestors up to the root. Every segment, also an empty one, \<^verbatim>\<open>.\<close> and \<^verbatim>\<open>..\<close>,
  needs a directory to stand on, so a file path with a trailing slash resolves to
  nothing; and the empty path resolves to nothing.
\<close>

fun fs_walk :: "fsnode list \<Rightarrow> string list \<Rightarrow> fsnode option" where
  "fs_walk [] segs = None"
| "fs_walk (node # parents) [] = Some node"
| "fs_walk (node # parents) (seg # segs) =
     (case node of
        Dir entries \<Rightarrow>
          if seg = '''' \<or> seg = ''.'' then fs_walk (node # parents) segs
          else if seg = ''..'' then fs_walk (if parents = [] then [node] else parents) segs
          else
            (case map_of entries seg of
               None \<Rightarrow> None
             | Some child \<Rightarrow> fs_walk (child # node # parents) segs)
      | _ \<Rightarrow> None)"

definition resolvePath :: "fsnode \<Rightarrow> string \<Rightarrow> fsnode option" where
  "resolvePath fs p = (if p = [] then None else fs_walk [fs] (split_str CHR ''/'' p))"

definition existsSync :: "fsnode \<Rightarrow> string \<Rightarrow> bool" where
  "existsSync fs p =
     (case resolvePath fs p of
        None \<Rightarrow> False
      | Some Dangling \<Rightarrow> False
      | Some _ \<Rightarrow> True)"

text \<open>
  A readable file is given by its text, the string that \<^verbatim>\<open>readFileSync(path, 'utf8')\<close>
  returns. Read without an encoding, the file is the buffer of its bytes: the UTF-8
  encoding of the text, one byte for a code unit below 128 and two bytes for the others
  of the modelled range.
\<close>

definition readFileSync :: "fsnode \<Rightarrow> string \<Rightarrow> exn + string" where
  "readFileSync fs p =
     (case resolvePath fs p of
        Some (File content) \<Rightarrow> Inr content
      | _ \<Rightarrow> Inl (Error (''cannot read '' @ p)))"

definition utf8_encode :: "string \<Rightarrow> string" where
  "utf8_encode s =
     concat (map (\<lambda>c. let n = (of_char c :: nat)
                      in if n < 128 then [c]
                         else [char_of (192 + n div 64), char_of (128 + n mod 64)]) s)"

definition readFileBuffer :: "fsnode \<Rightarrow> string \<Rightarrow> exn + string" where
  "readFileBuffer fs p =
     (case readFileSync fs p of
        Inl e \<Rightarrow> Inl e
      | Inr content \<Rightarrow> Inr (utf8_encode content))"

section \<open>Regular expressions\<close>

text \<open>
  The part of the pattern language that \<^verbatim>\<open>createSearchPattern\<close> can emit: a pattern is
  a sequence of atoms, each a literal character (a character that is not a syntax
  character, or a syntax character after a backslash) or the word boundary assertion
  \<^verbatim>\<open>\b\<close>. \<open>parsePattern\<close> reads a pattern source and answers \<open>None\<close> for a source
  with any other construct, or with a backslash at its end.
\<close>

datatype atom = Lit char | WordBoundary

definition backslash :: char where
  "backslash = CHR 0x5C"

definition syntaxCharacters :: "char list" where
  "syntaxCharacters =
     [CHR ''^'', CHR ''$'', backslash, CHR ''.'', CHR ''*'', CHR ''+'', CHR ''?'',
      CHR ''('', CHR '')'', CHR ''['', CHR '']'', CHR ''{'', CHR ''}'', CHR ''|'']"

fun parsePattern :: "string \<Rightarrow> atom list option" where
  "parsePattern [] = Some []"
| "parsePattern [c] =
     (if c \<in> set syntaxCharacters then None else Some [Lit c])"
| "parsePattern (c # d # cs) =
     (if c = backslash then
        (if d \<in> set syntaxCharacters then map_option (\<lambda>as. Lit d # as) (parsePattern cs)
         else if d = CHR ''b'' then map_option (\<lambda>as. WordBoundary # as) (parsePattern cs)
         else None)
      else if c \<in> set syntaxCharacters then None
      else map_option (\<lambda>as. Lit c # as) (parsePattern (d # cs)))"

text \<open>
  A \<^verbatim>\<open>RegExp\<close> object: the pattern and flags strings it was constructed from (its
  internal slots \<^verbatim>\<open>[[OriginalSource]]\<close> and \<^verbatim>\<open>[[OriginalFlags]]\<close>), the atoms the pattern
  compiles to, and the mutable \<^verbatim>\<open>lastIndex\<close>. The constructor of the model accepts the sources that
  \<open>parsePattern\<close> reads and the flags \<^verbatim>\<open>g\<close> and \<^verbatim>\<open>i\<close>; it answers every other source
  or flag with an exception, as the engine does for a malformed one. (Sources that the
  engine would accept but that use other constructs are outside the model;
  \<^verbatim>\<open>createSearchPattern\<close> never builds one.)
\<close>

record RegExp =
  originalSource :: string
  originalFlags :: string
  atoms :: "atom list"
  lastIndex :: nat

definition global :: "RegExp \<Rightarrow> bool" where
  "global r = (CHR ''g'' \<in> set (originalFlags r))"

definition ignoreCase :: "RegExp \<Rightarrow> bool" where
  "ignoreCase r = (CHR ''i'' \<in> set (originalFlags r))"

definition RegExp_new :: "string \<Rightarrow> string \<Rightarrow> exn + RegExp" where
  "RegExp_new pattern flagString =
     (if \<not> (distinct flagString \<and> set flagString \<subseteq> {CHR ''g'', CHR ''i''})
      then Inl (Error (''Invalid flags supplied to RegExp constructor '' @ flagString))
      else
        (case parsePattern pattern of
           None \<Rightarrow> Inl (Error (''Invalid regular expression: /'' @ pattern @ ''/''))
         | Some as \<Rightarrow> Inr \<lparr>originalSource = pattern, originalFlags = flagString, atoms = as,
                          lastIndex = 0\<rparr>))"

text \<open>
  Matching. Under the \<^verbatim>\<open>i\<close> flag two characters match when their canonical forms are
  equal. The canonical form of a code unit is its upper case form when that is one code
  unit (and not an ASCII one for a code unit from 128 on). In the modelled range the
  letters a to z and 0xE0 to 0xFE without the division sign 0xF7 have their canonical
  form 32 below them; every other code unit of the range either is its own canonical form
  or (0xB5 and 0xFF) has a canonical form above the range that no other code unit of the
  range shares, and is kept. A word character is a letter, a digit or the underscore; a word
  boundary lies between a word character and a non-word character or an end of the
  string. \<open>matchAtoms\<close> answers the end index of the match that starts at index \<open>i\<close>.
\<close>

definition foldCase :: "char \<Rightarrow> char" where
  "foldCase c =
     (let n = (of_char c :: nat)
      in if (97 \<le> n \<and> n \<le> 122) \<or> (224 \<le> n \<and> n \<le> 254 \<and> n \<noteq> 247) then char_of (n - 32)
         else c)"

definition canonicalize :: "bool \<Rightarrow> char \<Rightarrow> char" where
  "canonicalize ic c = (if ic then foldCase c else c)"

definition isWordChar :: "char \<Rightarrow> bool" where
  "isWordChar c =
     (let n = (of_char c :: nat)
      in (48 \<le> n \<and> n \<le> 57) \<or> (65 \<le> n \<and> n \<le> 90) \<or> (97 \<le> n \<and> n \<le> 122) \<or> n = 95)"

definition isWordBoundary :: "string \<Rightarrow> nat \<Rightarrow> bool" where
  "isWordBoundary s i =
     (let a = (0 < i \<and> i - 1 < length s \<and> isWordChar (s ! (i - 1)));
          b = (i < length s \<and> isWordChar (s ! i))
      in a \<noteq> b)"

fun matchAtoms :: "bool \<Rightarrow> atom list \<Rightarrow> string \<Rightarrow> nat \<Rightarrow> nat option" where
  "matchAtoms ic [] s i = Some i"
| "matchAtoms ic (Lit c # as) s i =
     (if i < length s \<and> canonicalize ic (s ! i) = canonicalize ic c
      then matchAtoms ic as s (Suc i) else None)"
| "matchAtoms ic (WordBoundary # as) s i =
     (if isWordBoundary s i then matchAtoms ic as s i else None)"

fun firstMatch :: "bool \<Rightarrow> atom list \<Rightarrow> string \<Rightarrow> nat list \<Rightarrow> (nat \<times> nat) option" where
  "firstMatch ic as s [] = None"
| "firstMatch ic as s (i # is) =
     (case matchAtoms ic as s i of
        Some e \<Rightarrow> Some (i, e)
      | None \<Rightarrow> firstMatch ic as s is)"

text \<open>
  The search of \<^verbatim>\<open>RegExpBuiltinExec\<close>: the first index from \<open>start\<close> up to the length of
  the string at which the pattern matches, with the end of that match.
\<close>

definition execFrom :: "RegExp \<Rightarrow> string \<Rightarrow> nat \<Rightarrow> (nat \<times> nat) option" where
  "execFrom r s start = firstMatch (ignoreCase r) (atoms r) s [start..<Suc (length s)]"

text \<open>
  \<^verbatim>\<open>RegExp.prototype.test\<close>. A global pattern starts at its \<^verbatim>\<open>lastIndex\<close>, and the call
  leaves \<^verbatim>\<open>lastIndex\<close> at the end of the match, or at 0 when there is none; so the
  object is returned with the answer.
\<close>

definition regexp_test :: "RegExp \<Rightarrow> string \<Rightarrow> bool \<times> RegExp" where
  "regexp_test r s =
     (let start = (if global r then lastIndex r else 0)
      in case execFrom r s start of
           None \<Rightarrow> (False, if global r then r\<lparr>lastIndex := 0\<rparr> else r)
         | Some (i, e) \<Rightarrow> (True, if global r then r\<lparr>lastIndex := e\<rparr> else r))"

text \<open>
  \<^verbatim>\<open>String.prototype.matchAll\<close> throws a TypeError for a pattern without the \<^verbatim>\<open>g\<close>
  flag. Otherwise it works on a copy of the pattern that starts at the pattern's
  \<^verbatim>\<open>lastIndex\<close>: every match is reported, the search goes on from the end of the match,
  and from one further after an empty match. The pattern itself is left as it is.
\<close>

function matchAllFrom :: "RegExp \<Rightarrow> string \<Rightarrow> nat \<Rightarrow> (nat \<times> nat) list" where
  "matchAllFrom r s start =
     (case execFrom r s start of
        None \<Rightarrow> []
      | Some (i, e) \<Rightarrow> (i, e) # matchAllFrom r s (if e = i then Suc e else e))"
  by pat_completeness auto
termination
proof (relation "measure (\<lambda>(r, s, start). Suc (length s) - start)")
  show "wf (measure (\<lambda>(r, s, start). Suc (length s) - start))" by simp
next
  fix r :: RegExp and s :: string and start :: nat and x2 :: "nat \<times> nat" and i e :: nat
  assume found: "execFrom r s start = Some x2" "(i, e) = x2"
  have ends: "j \<le> k" if "matchAtoms ic as s j = Some k" for ic as j k
    using that
  proof (induction as arbitrary: j)
    case Nil
    then show ?case by simp
  next
    case (Cons a as)
    show ?case
    proof (cases a)
      case (Lit c)
      with Cons.prems have "matchAtoms ic as s (Suc j) = Some k"
        by (simp split: if_splits)
      from Cons.IH [OF this] show ?thesis by simp
    next
      case WordBoundary
      with Cons.prems have "matchAtoms ic as s j = Some k"
        by (simp split: if_splits)
      from Cons.IH [OF this] show ?thesis .
    qed
  qed
  have first: "j \<in> set js \<and> j \<le> k" if "firstMatch ic as s js = Some (j, k)" for ic as js j k
    using that by (induction js) (auto split: option.splits dest: ends)
  from found have "firstMatch (ignoreCase r) (atoms r) s [start..<Suc (length s)] = Some (i, e)"
    by (simp add: execFrom_def)
  from first [OF this] have "start \<le> i \<and> i \<le> length s \<and> i \<le> e"
    by auto
  then show "((r, s, if e = i then Suc e else e), (r, s, start))
               \<in> measure (\<lambda>(r, s, start). Suc (length s) - start)"
    by auto
qed

definition matchAll :: "string \<Rightarrow> RegExp \<Rightarrow> exn + (nat \<times> nat) list" where
  "matchAll s r =
     (if global r then Inr (matchAllFrom r s (lastIndex r))
      else Inl (Error ''String.prototype.matchAll called with a non-global RegExp argument''))"

section \<open>Pattern construction\<close>

text \<open>
  The characters of the class in \<^verbatim>\<open>searchTerm.replace(/[.*+?^${}()|[\]\\]/g, '\\$&')\<close>;
  the replacement puts a backslash before each of them.
\<close>

definition escapedCharacters :: "char list" where
  "escapedCharacters =
     [CHR ''.'', CHR ''*'', CHR ''+'', CHR ''?'', CHR ''^'', CHR ''$'', CHR ''{'', CHR ''}'',
      CHR ''('', CHR '')'', CHR ''|'', CHR ''['', CHR '']'', backslash]"

definition escapeTerm :: "string \<Rightarrow> string" where
  "escapeTerm searchTerm' =
     concat (map (\<lambda>c. if c \<in> set escapedCharacters then [backslash, c] else [c]) searchTerm')"

definition createSearchPattern :: "string \<Rightarrow> bool \<Rightarrow> bool \<Rightarrow> exn + RegExp" where
  "createSearchPattern searchTerm' caseSensitive' wholeWords' =
     (let escapedTerm = escapeTerm searchTerm';
          escapedTerm = (if wholeWords' then [backslash, CHR ''b''] @ escapedTerm @ [backslash, CHR ''b'']
                         else escapedTerm);
          flagString = (if caseSensitive' then ''g'' else ''gi'')
      in RegExp_new escapedTerm flagString)"

section \<open>File walker\<close>

definition skipDirs :: "string list" where
  "skipDirs =
     [''node_modules'', ''.git'', ''.svn'', ''.hg'',
      ''temp'', ''input-cache'', ''txcache'',
      ''bin'', ''obj'', ''target'', ''build'', ''dist'',
      ''.vs'', ''.vscode'', ''.idea'']"

definition shouldSkipDirectory :: "string \<Rightarrow> bool" where
  "shouldSkipDirectory dirName = (toLowerCase dirName \<in> set skipDirs)"

text \<open>
  \<^verbatim>\<open>findFilesInPath\<close> walks the directory by path. In the tree, the node that
  \<^verbatim>\<open>statSync\<close> and the recursive call see at \<^verbatim>\<open>path.join(dirPath, item)\<close> is the entry
  of that name, so the walk recurses over the entries: \<open>findFilesInItems\<close> is the
  \<^verbatim>\<open>for\<close> loop over the items of one directory. An entry whose \<^verbatim>\<open>statSync\<close> throws is
  skipped; a directory whose \<^verbatim>\<open>readdirSync\<close> throws contributes no file.
\<close>

fun findFilesInItems :: "string \<Rightarrow> (string \<times> fsnode) list \<Rightarrow> string list \<Rightarrow> bool \<Rightarrow> string list" where
  "findFilesInItems dirPath [] exts rec = []"
| "findFilesInItems dirPath ((item, node) # items) exts rec =
     (let fullPath = path_join [dirPath, item];
          ext = toLowerCase (extname item);
          asFile = (if exts = [] \<or> ext \<in> set exts then [fullPath] else [])
      in (case node of
            File _ \<Rightarrow> asFile
          | UnreadableFile \<Rightarrow> asFile
          | Dir entries \<Rightarrow>
              if rec \<and> \<not> shouldSkipDirectory item
              then findFilesInItems fullPath entries exts rec else []
          | UnreadableDir \<Rightarrow> []
          | Dangling \<Rightarrow> []
          | Special \<Rightarrow> [])
         @ findFilesInItems dirPath items exts rec)"

definition findFilesInPath :: "fsnode \<Rightarrow> string \<Rightarrow> string list \<Rightarrow> bool \<Rightarrow> string list" where
  "findFilesInPath fs dirPath exts rec =
     (if \<not> existsSync fs dirPath then []
      else
        (case resolvePath fs dirPath of
           Some (Dir items) \<Rightarrow> findFilesInItems dirPath items exts rec
         | _ \<Rightarrow> []))"

section \<open>Content filters\<close>

definition doubleQuote :: char where
  "doubleQuote = CHR 0x22"

definition isResourceFile :: "fsnode \<Rightarrow> string \<Rightarrow> bool" where
  "isResourceFile fs filePath' =
     (let ext = toLowerCase (extname filePath')
      in if ext = ''.json'' then
           (case readFileSync fs filePath' of
              Inl e \<Rightarrow> False
            | Inr content \<Rightarrow>
                includes_str (take (min 2000 (length content)) content)
                  ([doubleQuote] @ ''resourceType'' @ [doubleQuote]))
         else if ext = ''.xml'' then
           (case readFileSync fs filePath' of
              Inl e \<Rightarrow> False
            | Inr content \<Rightarrow>
                (let sample = take (min 2000 (length content)) content
                 in includes_str sample (''xmlns='' @ [doubleQuote] @ ''http://hl7.org/fhir'' @ [doubleQuote])
                    \<or> includes_str sample ''http://hl7.org/fhir''))
         else if ext = ''.map'' \<or> ext = ''.ttl'' then True
         else False)"

definition textExtensions :: "string list" where
  "textExtensions =
     [''.txt'', ''.md'', ''.json'', ''.xml'', ''.html'', ''.css'', ''.js'', ''.yaml'', ''.yml'',
      ''.properties'']"

definition isTextFile :: "fsnode \<Rightarrow> string \<Rightarrow> bool" where
  "isTextFile fs filePath' =
     (let ext = toLowerCase (extname filePath')
      in if ext \<in> set textExtensions then True
         else
           (case readFileBuffer fs filePath' of
              Inl e \<Rightarrow> False
            | Inr buffer \<Rightarrow> CHR 0x00 \<notin> set (take (min 512 (length buffer)) buffer)))"

section \<open>Category resolver\<close>

text \<open>
  The \<^verbatim>\<open>filter\<close> field of a location holds one of three functions; they are named here
  and applied by \<open>applyFilter\<close>.
\<close>

datatype locationFilter = SushiConfigName | ResourceContent | TextContent

record SearchLocation =
  path :: string
  extensions :: "string list"
  recursive :: bool
  filter_l :: "locationFilter option"

definition applyFilter :: "fsnode \<Rightarrow> locationFilter \<Rightarrow> string \<Rightarrow> bool" where
  "applyFilter fs f filePath' =
     (case f of
        SushiConfigName \<Rightarrow> basename filePath' = ''sushi-config.yaml''
      | ResourceContent \<Rightarrow> isResourceFile fs filePath'
      | TextContent \<Rightarrow> isTextFile fs filePath')"

definition resourceExtensions :: "string list" where
  "resourceExtensions = [''.json'', ''.xml'', ''.map'', ''.ttl'']"

definition getCategoryPaths :: "fsnode \<Rightarrow> string \<Rightarrow> string \<Rightarrow> SearchLocation list" where
  "getCategoryPaths fs igFolder categoryName =
     (let paths =
        (if categoryName = ''fsh'' then
           [\<lparr>path = igFolder, extensions = [''.yaml''], recursive = False,
             filter_l = Some SushiConfigName\<rparr>,
            \<lparr>path = path_join [igFolder, ''input''], extensions = [''.fsh''], recursive = True,
             filter_l = None\<rparr>]
         else if categoryName = ''inputResources'' then
           [\<lparr>path = path_join [igFolder, ''input''], extensions = resourceExtensions,
             recursive = True, filter_l = Some ResourceContent\<rparr>]
           @ (let fshGeneratedPath = path_join [igFolder, ''fsh-generated'']
              in if existsSync fs fshGeneratedPath
                 then [\<lparr>path = fshGeneratedPath, extensions = resourceExtensions,
                        recursive = True, filter_l = Some ResourceContent\<rparr>]
                 else [])
         else if categoryName = ''inputPages'' then
           [\<lparr>path = path_join [igFolder, ''input'', ''pagecontent''], extensions = [],
             recursive = True, filter_l = None\<rparr>]
         else if categoryName = ''translations'' then
           [\<lparr>path = path_join [igFolder, ''input'', ''translations''], extensions = [],
             recursive = True, filter_l = Some TextContent\<rparr>]
         else if categoryName = ''outputResources'' then
           [\<lparr>path = path_join [igFolder, ''output''], extensions = [''.json''],
             recursive = True, filter_l = Some ResourceContent\<rparr>]
         else if categoryName = ''outputHtml'' then
           [\<lparr>path = path_join [igFolder, ''output''], extensions = [''.html''],
             recursive = True, filter_l = None\<rparr>]
         else [])
      in filter (\<lambda>pathConfig. existsSync fs (path pathConfig)) paths)"

section \<open>Matcher\<close>

definition getRelativePath :: "IGSearch \<Rightarrow> string \<Rightarrow> string" where
  "getRelativePath this filePath' =
     (case currentIgFolder this of
        None \<Rightarrow> basename filePath'
      | Some folder \<Rightarrow>
          if folder \<noteq> [] \<and> startsWith filePath' folder then path_relative folder filePath'
          else basename filePath')"

text \<open>
  The \<^verbatim>\<open>for\<close> loop of \<^verbatim>\<open>searchInFile\<close> over the lines, \<open>lineNum\<close> counting from 0. An
  exception of \<^verbatim>\<open>matchAll\<close> leaves the loop.
\<close>

fun scanLines :: "RegExp \<Rightarrow> string list \<Rightarrow> nat \<Rightarrow> exn + LineMatch list" where
  "scanLines pattern [] lineNum = Inr []"
| "scanLines pattern (l # ls) lineNum =
     (case matchAll l pattern of
        Inl e \<Rightarrow> Inl e
      | Inr lineMatches \<Rightarrow>
          (case scanLines pattern ls (Suc lineNum) of
             Inl e \<Rightarrow> Inl e
           | Inr rest \<Rightarrow>
               if length lineMatches > 0
               then Inr (\<lparr>lineNumber = lineNum + 1, line = trim l,
                           matchCount = length lineMatches\<rparr> # rest)
               else Inr rest))"

text \<open>\<^verbatim>\<open>searchInFile\<close> answers null (\<open>None\<close>) for a file without a match and on any exception.\<close>

definition searchInFile :: "IGSearch \<Rightarrow> fsnode \<Rightarrow> string \<Rightarrow> RegExp \<Rightarrow> string \<Rightarrow> FileMatchResult option" where
  "searchInFile this fs filePath' pattern category' =
     (case readFileSync fs filePath' of
        Inl e \<Rightarrow> None
      | Inr content \<Rightarrow>
          (case scanLines pattern (split_str CHR 0x0A content) 0 of
             Inl e \<Rightarrow> None
           | Inr found \<Rightarrow>
               if length found > 0
               then Some \<lparr>filePath = filePath',
                          fileName = basename filePath',
                          relativePath = getRelativePath this filePath',
                          category = category',
                          matches = found,
                          totalMatches_f = sum_list (map matchCount found)\<rparr>
               else None))"

section \<open>Category scan\<close>

text \<open>
  The two nested loops of \<^verbatim>\<open>searchCategory\<close>, over the locations and over the files of
  one location, with the list of results so far as accumulator. Each loop leaves when
  the number of results has reached \<open>maxResults'\<close>.
\<close>

fun searchFiles ::
  "IGSearch \<Rightarrow> fsnode \<Rightarrow> SearchLocation \<Rightarrow> RegExp \<Rightarrow> string \<Rightarrow> int \<Rightarrow> string list
     \<Rightarrow> FileMatchResult list \<Rightarrow> FileMatchResult list" where
  "searchFiles this fs searchConfig pattern categoryName maxResults' [] acc = acc"
| "searchFiles this fs searchConfig pattern categoryName maxResults' (f # files) acc =
     (if int (length acc) \<ge> maxResults' then acc
      else if (case filter_l searchConfig of
                 None \<Rightarrow> False
               | Some flt \<Rightarrow> \<not> applyFilter fs flt f)
      then searchFiles this fs searchConfig pattern categoryName maxResults' files acc
      else
        (case searchInFile this fs f pattern categoryName of
           Some fileResults \<Rightarrow>
             searchFiles this fs searchConfig pattern categoryName maxResults' files
               (acc @ [fileResults])
         | None \<Rightarrow>
             searchFiles this fs searchConfig pattern categoryName maxResults' files acc))"

fun searchLocations ::
  "IGSearch \<Rightarrow> fsnode \<Rightarrow> RegExp \<Rightarrow> string \<Rightarrow> int \<Rightarrow> SearchLocation list
     \<Rightarrow> FileMatchResult list \<Rightarrow> FileMatchResult list" where
  "searchLocations this fs pattern categoryName maxResults' [] acc = acc"
| "searchLocations this fs pattern categoryName maxResults' (searchConfig # searchPaths) acc =
     (if int (length acc) \<ge> maxResults' then acc
      else if \<not> existsSync fs (path searchConfig)
      then searchLocations this fs pattern categoryName maxResults' searchPaths acc
      else
        (let files = findFilesInPath fs (path searchConfig) (extensions searchConfig)
                       (recursive searchConfig)
         in searchLocations this fs pattern categoryName maxResults' searchPaths
              (searchFiles this fs searchConfig pattern categoryName maxResults' files acc)))"

definition searchCategory ::
  "IGSearch \<Rightarrow> fsnode \<Rightarrow> string \<Rightarrow> string \<Rightarrow> RegExp \<Rightarrow> int \<Rightarrow> FileMatchResult list" where
  "searchCategory this fs igFolder categoryName pattern maxResults' =
     searchLocations this fs pattern categoryName maxResults'
       (getCategoryPaths fs igFolder categoryName) []"

section \<open>Ranking\<close>

text \<open>
  The comparison function handed to \<^verbatim>\<open>results.sort\<close>. It calls \<^verbatim>\<open>pattern.test\<close> twice,
  and \<^verbatim>\<open>test\<close> moves the \<^verbatim>\<open>lastIndex\<close> of the global pattern, so the pattern is
  threaded through the two calls and returned.
\<close>

definition compareResults :: "RegExp \<Rightarrow> FileMatchResult \<Rightarrow> FileMatchResult \<Rightarrow> int \<times> RegExp" where
  "compareResults pattern a b =
     (let (aFileMatch, pattern1) = regexp_test pattern (basename (filePath a));
          (bFileMatch, pattern2) = regexp_test pattern1 (basename (filePath b))
      in (if aFileMatch \<and> \<not> bFileMatch then - 1
          else if \<not> aFileMatch \<and> bFileMatch then 1
          else int (length (matches b)) - int (length (matches a)),
          pattern2))"

text \<open>
  \<^verbatim>\<open>Array.prototype.sort\<close> is the engine's, and for a comparison function that is not
  consistent the language leaves the order to the engine. The model follows V8. For an
  array of fewer than 64 elements V8 finds the run at the start of the array: it compares
  the second element with the first (the later element is the first argument of the
  comparison function); a negative answer starts a strictly descending run, any other
  answer an ascending one; the run goes on as long as each next element compares the same
  way with the one before it. A descending run is reversed. Then each remaining element
  is put into the sorted prefix at the place a binary search finds for it. The state of
  the comparison function is threaded through its calls in the order they are made. From
  64 elements on V8 sorts shorter runs in this way and merges them; the merge is not
  modelled, and the model treats a longer array like a short one. The only fact about
  arrays of any length that is proved of the sort below is that its result is a
  permutation of the array, which holds of the merge as well; the order of the result is
  only evaluated on an array of two elements.
\<close>

fun extendRun ::
  "('s \<Rightarrow> 'a \<Rightarrow> 'a \<Rightarrow> int \<times> 's) \<Rightarrow> 's \<Rightarrow> bool \<Rightarrow> 'a \<Rightarrow> 'a list \<Rightarrow> 'a list
     \<Rightarrow> 'a list \<times> 'a list \<times> 's" where
  "extendRun comparefn st isDescending previousElement run [] = (run, [], st)"
| "extendRun comparefn st isDescending previousElement run (currentElement # rest) =
     (let (order, st1) = comparefn st currentElement previousElement
      in if (if isDescending then order \<ge> 0 else order < 0)
         then (run, currentElement # rest, st1)
         else extendRun comparefn st1 isDescending currentElement (run @ [currentElement]) rest)"

fun countAndMakeRun ::
  "('s \<Rightarrow> 'a \<Rightarrow> 'a \<Rightarrow> int \<times> 's) \<Rightarrow> 's \<Rightarrow> 'a list \<Rightarrow> 'a list \<times> 'a list \<times> 's" where
  "countAndMakeRun comparefn st (elementHigh # elementLow # rest) =
     (let (order, st1) = comparefn st elementLow elementHigh;
          isDescending = (order < 0);
          (run, remaining, st2) =
            extendRun comparefn st1 isDescending elementLow [elementHigh, elementLow] rest
      in (if isDescending then rev run else run, remaining, st2))"
| "countAndMakeRun comparefn st xs = (xs, [], st)"

text \<open>
  The binary search of the insertion: it is only called with \<open>right\<close> at most the length
  of the sorted prefix, so \<open>placed ! mid\<close> is an element of it.
\<close>

function binarySearch ::
  "('s \<Rightarrow> 'a \<Rightarrow> 'a \<Rightarrow> int \<times> 's) \<Rightarrow> 's \<Rightarrow> 'a \<Rightarrow> 'a list \<Rightarrow> nat \<Rightarrow> nat \<Rightarrow> nat \<times> 's" where
  "binarySearch comparefn st pivot placed left right =
     (if left < right then
        (let mid = left + (right - left) div 2;
             (order, st1) = comparefn st pivot (placed ! mid)
         in if order < 0 then binarySearch comparefn st1 pivot placed left mid
            else binarySearch comparefn st1 pivot placed (mid + 1) right)
      else (left, st))"
  by pat_completeness auto
termination
  by (relation "measure (\<lambda>(comparefn, st, pivot, placed, left, right). right - left)") auto

fun binaryInsertionSort ::
  "('s \<Rightarrow> 'a \<Rightarrow> 'a \<Rightarrow> int \<times> 's) \<Rightarrow> 's \<Rightarrow> 'a list \<Rightarrow> 'a list \<Rightarrow> 'a list \<times> 's" where
  "binaryInsertionSort comparefn st placed [] = (placed, st)"
| "binaryInsertionSort comparefn st placed (pivot # rest) =
     (let (left, st1) = binarySearch comparefn st pivot placed 0 (length placed)
      in binaryInsertionSort comparefn st1 (take left placed @ pivot # drop left placed) rest)"

definition array_sort :: "('s \<Rightarrow> 'a \<Rightarrow> 'a \<Rightarrow> int \<times> 's) \<Rightarrow> 's \<Rightarrow> 'a list \<Rightarrow> 'a list \<times> 's" where
  "array_sort comparefn st xs =
     (if length xs < 2 then (xs, st)
      else
        (let (run, remaining, st1) = countAndMakeRun comparefn st xs
         in binaryInsertionSort comparefn st1 run remaining))"

text \<open>\<^verbatim>\<open>xs.slice(0, n)\<close>: a negative \<open>n\<close> counts from the end.\<close>

definition slice0 :: "'a list \<Rightarrow> int \<Rightarrow> 'a list" where
  "slice0 xs n = (if n < 0 then take (nat (int (length xs) + n)) xs else take (nat n) xs)"

section \<open>Top-level search\<close>

text \<open>A value that may be undefined or null, as an argument or a field can be.\<close>

datatype 'a jsvalue = Undefined | Null | Defined 'a

text \<open>
  The \<^verbatim>\<open>options\<close> object. The two flags are read by their truthiness only, so a flag is
  a boolean, or \<open>None\<close> when it is missing. The \<^verbatim>\<open>categories\<close> field is handed to
  \<^verbatim>\<open>Object.entries\<close>, which throws a TypeError for null (and for undefined, which the
  default of the destructuring replaces by the empty object before); of any other value
  it gives the entries, an association list.
\<close>

record SearchOptions =
  caseSensitive_o :: "bool option"
  wholeWords_o :: "bool option"
  categories_o :: "(string \<times> bool) list jsvalue"

definition Object_entries :: "(string \<times> bool) list jsvalue \<Rightarrow> exn + (string \<times> bool) list" where
  "Object_entries obj =
     (case obj of
        Defined entries \<Rightarrow> Inr entries
      | _ \<Rightarrow> Inl (Error ''Cannot convert undefined or null to object''))"

text \<open>
  What \<^verbatim>\<open>performSearch\<close> returns. The field \<^verbatim>\<open>results\<close> is named \<open>results_r\<close> here;
  \<^verbatim>\<open>error\<close> is a message or null; \<open>truncated\<close> is \<open>None\<close> in a record that has no such
  field.
\<close>

record SearchResult =
  results_r :: "FileMatchResult list"
  totalMatches :: int
  error :: "string option"
  truncated :: "bool option"

text \<open>
  The \<^verbatim>\<open>for\<close> loop over the entries of \<^verbatim>\<open>categories\<close>, with \<^verbatim>\<open>results\<close> and
  \<^verbatim>\<open>totalMatches\<close> as accumulators.
\<close>

fun searchCategories ::
  "IGSearch \<Rightarrow> fsnode \<Rightarrow> string \<Rightarrow> RegExp \<Rightarrow> (string \<times> bool) list
     \<Rightarrow> FileMatchResult list \<Rightarrow> int \<Rightarrow> FileMatchResult list \<times> int" where
  "searchCategories this fs igFolder pattern [] acc running = (acc, running)"
| "searchCategories this fs igFolder pattern ((categoryName, enabled) # entries) acc running =
     (if \<not> enabled then searchCategories this fs igFolder pattern entries acc running
      else if running \<ge> maxResults this then (acc, running)
      else
        (let categoryResults =
               searchCategory this fs igFolder categoryName pattern (maxResults this - running)
         in searchCategories this fs igFolder pattern entries
              (acc @ categoryResults)
              (running + sum_list (map (\<lambda>result. int (length (matches result))) categoryResults))))"

text \<open>The body of the \<^verbatim>\<open>try\<close> block: it returns a record or throws.\<close>

definition searchBody ::
  "IGSearch \<Rightarrow> fsnode \<Rightarrow> string \<Rightarrow> string \<Rightarrow> bool \<Rightarrow> bool \<Rightarrow> (string \<times> bool) list jsvalue
     \<Rightarrow> exn + SearchResult" where
  "searchBody this fs igFolder searchTerm' caseSensitive' wholeWords' categories' =
     (case createSearchPattern searchTerm' caseSensitive' wholeWords' of
        Inl e \<Rightarrow> Inl e
      | Inr pattern \<Rightarrow>
          (case Object_entries categories' of
             Inl e \<Rightarrow> Inl e
           | Inr entries \<Rightarrow>
               (let (acc, running) = searchCategories this fs igFolder pattern entries [] 0;
                    (sorted, pattern') = array_sort compareResults pattern acc
                in Inr \<lparr>results_r = slice0 sorted (maxResults this),
                        totalMatches = running,
                        error = None,
                        truncated = Some (running > maxResults this)\<rparr>)))"

text \<open>The \<^verbatim>\<open>catch\<close> clause: the record returned for an exception.\<close>

definition searchFailed :: "exn \<Rightarrow> SearchResult" where
  "searchFailed e = \<lparr>results_r = [], totalMatches = 0, error = Some (message e), truncated = None\<rparr>"

definition tryCatch :: "exn + SearchResult \<Rightarrow> SearchResult" where
  "tryCatch body = (case body of Inl e \<Rightarrow> searchFailed e | Inr r \<Rightarrow> r)"

text \<open>
  \<^verbatim>\<open>performSearch\<close>, for a search term that is a string and an \<^verbatim>\<open>options\<close> argument that
  is an object or missing (\<open>None\<close>, which the default parameter replaces by the empty
  object). The function is \<^verbatim>\<open>async\<close> and awaits each file in turn; the file system is
  the same during the whole call, so the model is sequential.
\<close>

definition defaultOptions :: SearchOptions where
  "defaultOptions = \<lparr>caseSensitive_o = None, wholeWords_o = None, categories_o = Undefined\<rparr>"

definition performSearch ::
  "IGSearch \<Rightarrow> fsnode \<Rightarrow> string \<Rightarrow> string \<Rightarrow> SearchOptions option \<Rightarrow> SearchResult" where
  "performSearch this fs igFolder searchTerm' options =
     (let opts = (case options of None \<Rightarrow> defaultOptions | Some given \<Rightarrow> given);
          caseSensitive' = (case caseSensitive_o opts of None \<Rightarrow> False | Some b \<Rightarrow> b);
          wholeWords' = (case wholeWords_o opts of None \<Rightarrow> False | Some b \<Rightarrow> b);
          categories' = (case categories_o opts of Undefined \<Rightarrow> Defined [] | given \<Rightarrow> given)
      in if searchTerm' = [] \<or> trim searchTerm' = []
         then \<lparr>results_r = [], totalMatches = 0, error = None, truncated = None\<rparr>
         else tryCatch
                (searchBody this fs igFolder searchTerm' caseSensitive' wholeWords' categories'))"





text \<open>
  \<^verbatim>\<open>performSearch\<close> reads \<^verbatim>\<open>this.maxResults\<close> and \<^verbatim>\<open>this.currentIgFolder\<close>. It assigns no
  field of the object and calls neither \<^verbatim>\<open>getSearchState\<close> nor \<^verbatim>\<open>saveSearchState\<close>, so
  the object after the call is the object before it.
\<close>

definition performSearch_run ::
  "IGSearch \<Rightarrow> fsnode \<Rightarrow> string \<Rightarrow> string \<Rightarrow> SearchOptions option \<Rightarrow> SearchResult \<times> IGSearch" where
  "performSearch_run this fs igFolder searchTerm' options =
     (performSearch this fs igFolder searchTerm' options, this)"

section \<open>Reference definitions and example inputs\<close>

text \<open>
  The definitions of this section are not taken from \<^verbatim>\<open>search.js\<close>. They say, in the
  words of the specification, what the properties below compare the code with, and they
  name the concrete projects and arguments at which the properties are evaluated.
\<close>

text \<open>
  The table of section 4.2 of the specification, row by row: the locations of a
  category before any existence check.
\<close>

definition categoryTable :: "string \<Rightarrow> string \<Rightarrow> SearchLocation list" where
  "categoryTable igFolder categoryName =
     (if categoryName = ''fsh'' then
        [\<lparr>path = igFolder, extensions = [''.yaml''], recursive = False,
          filter_l = Some SushiConfigName\<rparr>,
         \<lparr>path = path_join [igFolder, ''input''], extensions = [''.fsh''], recursive = True,
          filter_l = None\<rparr>]
      else if categoryName = ''inputResources'' then
        [\<lparr>path = path_join [igFolder, ''input''],
          extensions = [''.json'', ''.xml'', ''.map'', ''.ttl''], recursive = True,
          filter_l = Some ResourceContent\<rparr>,
         \<lparr>path = path_join [igFolder, ''fsh-generated''],
          extensions = [''.json'', ''.xml'', ''.map'', ''.ttl''], recursive = True,
          filter_l = Some ResourceContent\<rparr>]
      else if categoryName = ''inputPages'' then
        [\<lparr>path = path_join [igFolder, ''input'', ''pagecontent''], extensions = [],
          recursive = True, filter_l = None\<rparr>]
      else if categoryName = ''translations'' then
        [\<lparr>path = path_join [igFolder, ''input'', ''translations''], extensions = [],
          recursive = True, filter_l = Some TextContent\<rparr>]
      else if categoryName = ''outputResources'' then
        [\<lparr>path = path_join [igFolder, ''output''], extensions = [''.json''],
          recursive = True, filter_l = Some ResourceContent\<rparr>]
      else if categoryName = ''outputHtml'' then
        [\<lparr>path = path_join [igFolder, ''output''], extensions = [''.html''],
          recursive = True, filter_l = None\<rparr>]
      else [])"

text \<open>
  A literal occurrence of a term in a string: the term stands at index \<open>i\<close>, letter
  case disregarded unless the search is case sensitive.
\<close>

definition occursAt :: "bool \<Rightarrow> string \<Rightarrow> string \<Rightarrow> nat \<Rightarrow> bool" where
  "occursAt caseSensitive' t s i =
     (i + length t \<le> length s \<and>
      (if caseSensitive' then take (length t) (drop i s) = t
       else map foldCase (take (length t) (drop i s)) = map foldCase t))"

text \<open>
  A file result whose own \<^verbatim>\<open>totalMatches\<close> field is the sum of the \<^verbatim>\<open>matchCount\<close> of its
  lines; and the number of matching lines of a result list, which is what
  \<^verbatim>\<open>performSearch\<close> adds up.
\<close>

definition countsItsMatches :: "FileMatchResult \<Rightarrow> bool" where
  "countsItsMatches r = (totalMatches_f r = sum_list (map matchCount (matches r)))"

definition matchingLines :: "FileMatchResult list \<Rightarrow> int" where
  "matchingLines rs = sum_list (map (\<lambda>result. int (length (matches result))) rs)"

text \<open>
  Whether the base name of a file matches the search pattern: the answer of \<^verbatim>\<open>test\<close> on
  a pattern fresh from \<^verbatim>\<open>createSearchPattern\<close>.
\<close>

definition nameMatches :: "string \<Rightarrow> bool \<Rightarrow> bool \<Rightarrow> string \<Rightarrow> bool" where
  "nameMatches t cs ww p =
     (case createSearchPattern t cs ww of
        Inl e \<Rightarrow> False
      | Inr pattern \<Rightarrow> fst (regexp_test pattern (basename p)))"

text \<open>
  The two answers of the comparison function for a pair of results, in both orders, each
  on a pattern whose \<^verbatim>\<open>lastIndex\<close> is 0.
\<close>

definition comparedBothWays ::
  "string \<Rightarrow> bool \<Rightarrow> bool \<Rightarrow> FileMatchResult \<Rightarrow> FileMatchResult \<Rightarrow> (int \<times> int) option" where
  "comparedBothWays t cs ww a b =
     (case createSearchPattern t cs ww of
        Inl e \<Rightarrow> None
      | Inr pattern \<Rightarrow>
          Some (fst (compareResults pattern a b), fst (compareResults pattern b a)))"

text \<open>The fields of a returned record that the next facts are about, read in one pass.\<close>

definition summary :: "SearchResult \<Rightarrow> int \<times> string option \<times> bool option \<times> nat" where
  "summary r = (totalMatches r, error r, truncated r, length (results_r r))"

text \<open>
  The example inputs: a stored state with four results, a project with two pages, and
  the projects at which the properties of the budget, the total and the ranking are
  evaluated, with the options they are searched under.
\<close>

definition exampleResult :: "string \<Rightarrow> string \<Rightarrow> FileMatchResult" where
  "exampleResult p c =
     \<lparr>filePath = p, fileName = basename p, relativePath = basename p, category = c,
      matches = [\<lparr>lineNumber = 1, line = ''Patient'', matchCount = 1\<rparr>], totalMatches_f = 1\<rparr>"

definition exampleStore :: IGSearch where
  "exampleStore =
     saveSearchState constructor ''/ig''
       (defaultSearchState
          \<lparr>searchTerm := ''Patient'',
           results :=
             [exampleResult ''/ig/output/a.json'' ''outputResources'',
              exampleResult ''/ig/input/b.json'' ''inputResources'',
              exampleResult ''/ig/output/c.html'' ''outputHtml'',
              exampleResult ''/ig/input/pagecontent/d.md'' ''inputPages'']\<rparr>)"

definition exampleTree :: fsnode where
  "exampleTree =
     Dir [(''ig'',
       Dir [(''input'',
         Dir [(''pagecontent'',
           Dir [(''intro.md'',
                 File (''# Intro'' @ [CHR 0x0A] @ '''' @ [CHR 0x0A]
                       @ ''This IG defines Patient profiles.'' @ [CHR 0x0A])),
                (''other.md'', File ''nothing here'')])])])]"

definition exampleOptions :: SearchOptions where
  "exampleOptions =
     \<lparr>caseSensitive_o = None, wholeWords_o = None,
      categories_o = Defined [(''fsh'', True), (''inputPages'', True), (''outputHtml'', False)]\<rparr>"


definition manyLines :: fsnode where
  "manyLines =
     Dir [(''ig'', Dir [(''input'', Dir [(''pagecontent'',
       Dir [(''long.md'', File (concat (replicate 201 (''a'' @ [CHR 0x0A]))))])])])]"

definition pagesOnly :: SearchOptions where
  "pagesOnly =
     \<lparr>caseSensitive_o = None, wholeWords_o = None,
      categories_o = Defined [(''inputPages'', True)]\<rparr>"

definition twoCategories :: fsnode where
  "twoCategories =
     Dir [(''ig'',
       Dir [(''sushi-config.yaml'', File ''a''),
            (''input'', Dir [(''pagecontent'',
              Dir [(''long.md'', File (concat (replicate 200 (''a'' @ [CHR 0x0A]))))])])])]"

definition pagesThenFsh :: SearchOptions where
  "pagesThenFsh =
     \<lparr>caseSensitive_o = None, wholeWords_o = None,
      categories_o = Defined [(''inputPages'', True), (''fsh'', True)]\<rparr>"

definition twoOnOneLine :: fsnode where
  "twoOnOneLine =
     Dir [(''ig'', Dir [(''input'', Dir [(''pagecontent'',
       Dir [(''a.md'', File ''aa'')])])])]"

definition patientPages :: fsnode where
  "patientPages =
     Dir [(''ig'', Dir [(''input'', Dir [(''pagecontent'',
       Dir [(''patient-a.md'',
             File (''patient'' @ [CHR 0x0A] @ ''patient'' @ [CHR 0x0A] @ ''patient'')),
            (''patient-b.md'', File ''patient'')])])])]"

section \<open>Properties of the state store\<close>

lemma startsWith_output_all:
  "\<forall>c \<in> set categoryNames.
     startsWith c ''output'' = (c = ''outputResources'' \<or> c = ''outputHtml'')"
  by code_simp

lemma startsWith_output_names:
  "c \<in> set categoryNames \<Longrightarrow>
     startsWith c ''output'' = (c = ''outputResources'' \<or> c = ''outputHtml'')"
  using startsWith_output_all by (rule bspec)

lemma getSearchState_stored:
  "fst (getSearchState (saveSearchState this igFolder state) igFolder) = state"
  by (simp add: getSearchState_def saveSearchState_def)

lemma clearOutputResults_state:
  "fst (getSearchState (clearOutputResults this igFolder) igFolder) =
     (fst (getSearchState this igFolder))
       \<lparr>results := filter (\<lambda>result. \<not> startsWith (category result) ''output'')
                    (results (fst (getSearchState this igFolder)))\<rparr>"
  by (cases "getSearchState this igFolder")
     (simp add: clearOutputResults_def getSearchState_stored)

text \<open>
  C6. For every project root and every stored result list whose entries carry one of
  the six category names, \<^verbatim>\<open>clearOutputResults\<close> (the operation \<^verbatim>\<open>invalidateOutput\<close> of
  the specification) removes exactly the entries whose category is \<^verbatim>\<open>outputResources\<close>
  or \<^verbatim>\<open>outputHtml\<close>, keeps every other entry, in order, and leaves \<^verbatim>\<open>searchTerm\<close>,
  \<^verbatim>\<open>caseSensitive\<close>, \<^verbatim>\<open>wholeWords\<close> and \<^verbatim>\<open>categories\<close> as they were.
\<close>

theorem clearOutputResults_removes_output:
  assumes "\<forall>r \<in> set (results (fst (getSearchState this igFolder))). category r \<in> set categoryNames"
  shows "results (fst (getSearchState (clearOutputResults this igFolder) igFolder)) =
           filter (\<lambda>r. category r \<noteq> ''outputResources'' \<and> category r \<noteq> ''outputHtml'')
                  (results (fst (getSearchState this igFolder)))
       \<and> searchTerm (fst (getSearchState (clearOutputResults this igFolder) igFolder)) =
           searchTerm (fst (getSearchState this igFolder))
       \<and> caseSensitive (fst (getSearchState (clearOutputResults this igFolder) igFolder)) =
           caseSensitive (fst (getSearchState this igFolder))
       \<and> wholeWords (fst (getSearchState (clearOutputResults this igFolder) igFolder)) =
           wholeWords (fst (getSearchState this igFolder))
       \<and> categories (fst (getSearchState (clearOutputResults this igFolder) igFolder)) =
           categories (fst (getSearchState this igFolder))"
proof -
  have "filter (\<lambda>r. \<not> startsWith (category r) ''output'')
          (results (fst (getSearchState this igFolder))) =
        filter (\<lambda>r. category r \<noteq> ''outputResources'' \<and> category r \<noteq> ''outputHtml'')
          (results (fst (getSearchState this igFolder)))"
    using assms by (intro filter_cong) (simp_all add: startsWith_output_names)
  then show ?thesis
    by (simp add: clearOutputResults_state)
qed

theorem clearOutputResults_removes_output_witness:
  "results (fst (getSearchState (clearOutputResults exampleStore ''/ig'') ''/ig'')) =
     [exampleResult ''/ig/input/b.json'' ''inputResources'',
      exampleResult ''/ig/input/pagecontent/d.md'' ''inputPages'']
   \<and> searchTerm (fst (getSearchState (clearOutputResults exampleStore ''/ig'') ''/ig'')) = ''Patient''"
proof -
  have wf: "\<forall>r \<in> set (results (fst (getSearchState exampleStore ''/ig''))).
              category r \<in> set categoryNames"
    by code_simp
  have kept: "filter (\<lambda>r. category r \<noteq> ''outputResources'' \<and> category r \<noteq> ''outputHtml'')
                (results (fst (getSearchState exampleStore ''/ig''))) =
              [exampleResult ''/ig/input/b.json'' ''inputResources'',
               exampleResult ''/ig/input/pagecontent/d.md'' ''inputPages'']"
    by code_simp
  have query: "searchTerm (fst (getSearchState exampleStore ''/ig'')) = ''Patient''"
    by code_simp
  from clearOutputResults_removes_output [OF wf] show ?thesis
    by (simp only: kept query)
qed

section \<open>Properties of the category resolver\<close>

text \<open>
  C9. For every project root and category name, \<^verbatim>\<open>getCategoryPaths\<close> returns exactly
  the locations of the table of section 4.2 for that category whose path exists, in the
  order of the table; when none of them exists the result is the empty list.
\<close>

theorem getCategoryPaths_table:
  "getCategoryPaths fs igFolder categoryName =
     filter (\<lambda>loc. existsSync fs (path loc)) (categoryTable igFolder categoryName)
   \<and> ((\<forall>loc \<in> set (categoryTable igFolder categoryName). \<not> existsSync fs (path loc))
        \<longrightarrow> getCategoryPaths fs igFolder categoryName = [])"
  by (simp add: getCategoryPaths_def categoryTable_def resourceExtensions_def Let_def)

theorem getCategoryPaths_table_witness:
  "getCategoryPaths (Dir [(''ig'', Dir [(''input'', Dir []), (''output'', Dir [])])]) ''/ig''
     ''inputResources'' =
     [\<lparr>path = ''/ig/input'', extensions = [''.json'', ''.xml'', ''.map'', ''.ttl''],
       recursive = True, filter_l = Some ResourceContent\<rparr>]
   \<and> getCategoryPaths (Dir [(''ig'', Dir [(''output'', Dir [])])]) ''/ig'' ''inputResources'' = []"
proof -
  have none: "\<forall>loc \<in> set (categoryTable ''/ig'' ''inputResources'').
                \<not> existsSync (Dir [(''ig'', Dir [(''output'', Dir [])])]) (path loc)"
    by code_simp
  have some: "filter (\<lambda>loc. existsSync (Dir [(''ig'', Dir [(''input'', Dir []), (''output'', Dir [])])]) (path loc))
                (categoryTable ''/ig'' ''inputResources'') =
              [\<lparr>path = ''/ig/input'', extensions = [''.json'', ''.xml'', ''.map'', ''.ttl''],
                recursive = True, filter_l = Some ResourceContent\<rparr>]"
    by code_simp
  from getCategoryPaths_table
         [of "Dir [(''ig'', Dir [(''input'', Dir []), (''output'', Dir [])])]" "''/ig''" "''inputResources''"]
  have first: "getCategoryPaths (Dir [(''ig'', Dir [(''input'', Dir []), (''output'', Dir [])])]) ''/ig''
     ''inputResources'' =
     [\<lparr>path = ''/ig/input'', extensions = [''.json'', ''.xml'', ''.map'', ''.ttl''],
       recursive = True, filter_l = Some ResourceContent\<rparr>]"
    by (simp only: some)
  from getCategoryPaths_table
         [of "Dir [(''ig'', Dir [(''output'', Dir [])])]" "''/ig''" "''inputResources''"] none
  have second: "getCategoryPaths (Dir [(''ig'', Dir [(''output'', Dir [])])]) ''/ig'' ''inputResources'' = []"
    by blast
  from first second show ?thesis by (rule conjI)
qed

section \<open>Properties of the short circuit and of the error handler\<close>

lemma trim_blank: "\<forall>c \<in> set s. isWhiteSpace c \<Longrightarrow> trim s = []"
proof -
  assume blank: "\<forall>c \<in> set s. isWhiteSpace c"
  have d: "dropWhile isWhiteSpace s = []"
    using blank by (induction s) auto
  show ?thesis unfolding trim_def d by simp
qed

text \<open>
  C7. For every project root, every options argument and every search term that is
  empty or consists of white space only, \<^verbatim>\<open>performSearch\<close> returns exactly
  \<^verbatim>\<open>{results: [], totalMatches: 0, error: null}\<close>, whatever the file system holds.
\<close>

theorem performSearch_blank_term:
  assumes "\<forall>c \<in> set searchTerm'. isWhiteSpace c"
  shows "performSearch this fs igFolder searchTerm' options =
           \<lparr>results_r = [], totalMatches = 0, error = None, truncated = None\<rparr>"
  using trim_blank [OF assms] by (simp add: performSearch_def Let_def)

theorem performSearch_blank_term_witness:
  "performSearch constructor
     (Dir [(''ig'', Dir [(''input'', Dir [(''pagecontent'', Dir [(''a.md'', File ''   '')])])])])
     ''/ig'' ''   ''
     (Some \<lparr>caseSensitive_o = Some True, wholeWords_o = None,
            categories_o = Defined [(''inputPages'', True)]\<rparr>)
   = \<lparr>results_r = [], totalMatches = 0, error = None, truncated = None\<rparr>
   \<and> performSearch constructor (Dir []) ''/ig'' '''' None
   = \<lparr>results_r = [], totalMatches = 0, error = None, truncated = None\<rparr>"
proof -
  have a: "\<forall>c \<in> set ''   ''. isWhiteSpace c" by code_simp
  have b: "\<forall>c \<in> set ''''. isWhiteSpace c" by simp
  from performSearch_blank_term [OF a] performSearch_blank_term [OF b]
  show ?thesis by (intro conjI)
qed

section \<open>Properties of pattern construction\<close>

lemma escaped_are_syntax: "set escapedCharacters = set syntaxCharacters"
  by code_simp

lemma b_not_syntax: "CHR ''b'' \<notin> set syntaxCharacters"
  by code_simp

lemma backslash_syntax: "backslash \<in> set syntaxCharacters"
  by code_simp

lemma parsePattern_plain:
  "c \<notin> set syntaxCharacters \<Longrightarrow>
     parsePattern (c # rest) = map_option (\<lambda>as. Lit c # as) (parsePattern rest)"
  using backslash_syntax by (cases rest) auto

lemma parsePattern_escaped:
  "d \<in> set syntaxCharacters \<Longrightarrow>
     parsePattern (backslash # d # rest) = map_option (\<lambda>as. Lit d # as) (parsePattern rest)"
  by simp

lemma parsePattern_boundary:
  "parsePattern (backslash # CHR ''b'' # rest) =
     map_option (\<lambda>as. WordBoundary # as) (parsePattern rest)"
  using b_not_syntax by simp

lemma parsePattern_escapeTerm:
  "parsePattern (escapeTerm t @ rest) = map_option (\<lambda>as. map Lit t @ as) (parsePattern rest)"
proof (induction t)
  case Nil
  show ?case by (simp add: escapeTerm_def option.map_ident)
next
  case (Cons c t)
  have step: "escapeTerm (c # t) @ rest =
                (if c \<in> set syntaxCharacters then backslash # c # (escapeTerm t @ rest)
                 else c # (escapeTerm t @ rest))"
    by (simp add: escapeTerm_def escaped_are_syntax)
  show ?case
  proof (cases "c \<in> set syntaxCharacters")
    case True
    then show ?thesis
      unfolding step using Cons.IH
      by (simp only: if_True parsePattern_escaped) (simp add: option.map_comp comp_def)
  next
    case False
    have "parsePattern (c # (escapeTerm t @ rest)) =
            map_option (\<lambda>as. Lit c # as) (parsePattern (escapeTerm t @ rest))"
      by (rule parsePattern_plain [OF False])
    with False show ?thesis
      unfolding step using Cons.IH
      by (simp add: option.map_comp comp_def)
  qed
qed

lemma occursAt_Cons:
  "occursAt cs (c # t) s i =
     (i < length s \<and> canonicalize (\<not> cs) (s ! i) = canonicalize (\<not> cs) c \<and> occursAt cs t s (Suc i))"
proof (cases "i < length s")
  case True
  then have "take (Suc (length t)) (drop i s) = s ! i # take (length t) (drop (Suc i) s)"
    by (simp add: Cons_nth_drop_Suc [symmetric])
  with True show ?thesis
    by (auto simp: occursAt_def canonicalize_def)
next
  case False
  then show ?thesis by (simp add: occursAt_def)
qed

lemma matchAtoms_literals:
  "i \<le> length s \<Longrightarrow>
     matchAtoms (\<not> cs) (map Lit t @ as) s i =
       (if occursAt cs t s i then matchAtoms (\<not> cs) as s (i + length t) else None)"
proof (induction t arbitrary: i)
  case Nil
  then show ?case by (simp add: occursAt_def)
next
  case (Cons c t)
  show ?case
  proof (cases "i < length s")
    case True
    then have "Suc i \<le> length s" by simp
    from Cons.IH [OF this] show ?thesis
      by (simp add: occursAt_Cons)
  next
    case False
    then show ?thesis by (simp add: occursAt_Cons)
  qed
qed

lemma createSearchPattern_value:
  "createSearchPattern t cs ww =
     Inr \<lparr>originalSource = (if ww then [backslash, CHR ''b''] @ escapeTerm t @ [backslash, CHR ''b'']
                      else escapeTerm t),
          originalFlags = (if cs then ''g'' else ''gi''),
          atoms = (if ww then WordBoundary # map Lit t @ [WordBoundary] else map Lit t),
          lastIndex = 0\<rparr>"
proof -
  have plain: "parsePattern (escapeTerm t) = Some (map Lit t)"
    using parsePattern_escapeTerm [of t "[]"] by simp
  have wrapped: "parsePattern ([backslash, CHR ''b''] @ escapeTerm t @ [backslash, CHR ''b'']) =
                   Some (WordBoundary # map Lit t @ [WordBoundary])"
    using parsePattern_escapeTerm [of t "[backslash, CHR ''b'']"]
          parsePattern_boundary [of "escapeTerm t @ [backslash, CHR ''b'']"]
          parsePattern_boundary [of "[]"]
    by simp
  show ?thesis
    using plain wrapped by (simp add: createSearchPattern_def RegExp_new_def Let_def)
qed

text \<open>
  C5. For every search term, \<^verbatim>\<open>createSearchPattern\<close> returns a pattern (it never
  throws). The pattern is constructed from the string that is the term with a backslash
  before each regex metacharacter, between two \<^verbatim>\<open>\b\<close> when \<^verbatim>\<open>wholeWords\<close> is set (this is
  the string handed to the constructor, \<^verbatim>\<open>[[OriginalSource]]\<close>; the \<^verbatim>\<open>source\<close> property,
  which escapes it again for printing, is not used by the code). That string compiles to
  the literal characters of the term, so the pattern matches at an index exactly when the
  term occurs there (between two word boundaries when \<^verbatim>\<open>wholeWords\<close> is set), where
  without \<^verbatim>\<open>caseSensitive\<close> two characters are the same when their canonical forms are.
  The pattern has the global flag, and the case-insensitive flag iff \<^verbatim>\<open>caseSensitive\<close> is
  false.
\<close>

theorem createSearchPattern_literal:
  "\<exists>p. createSearchPattern t cs ww = Inr p
     \<and> originalSource p = (if ww then [backslash, CHR ''b''] @ escapeTerm t @ [backslash, CHR ''b'']
                   else escapeTerm t)
     \<and> parsePattern (escapeTerm t) = Some (map Lit t)
     \<and> atoms p = (if ww then WordBoundary # map Lit t @ [WordBoundary] else map Lit t)
     \<and> global p
     \<and> ignoreCase p = (\<not> cs)
     \<and> (\<forall>s i. i \<le> length s \<longrightarrow>
           matchAtoms (ignoreCase p) (atoms p) s i =
             (if occursAt cs t s i
                 \<and> (if ww then isWordBoundary s i \<and> isWordBoundary s (i + length t) else True)
              then Some (i + length t) else None))"
proof -
  let ?p = "\<lparr>originalSource = (if ww then [backslash, CHR ''b''] @ escapeTerm t @ [backslash, CHR ''b'']
                      else escapeTerm t),
          originalFlags = (if cs then ''g'' else ''gi''),
          atoms = (if ww then WordBoundary # map Lit t @ [WordBoundary] else map Lit t),
          lastIndex = 0\<rparr>"
  have compiled: "parsePattern (escapeTerm t) = Some (map Lit t)"
    using parsePattern_escapeTerm [of t "[]"] by simp
  have g: "global ?p" by (simp add: global_def)
  have ic: "ignoreCase ?p = (\<not> cs)" by (simp add: ignoreCase_def)
  have m: "matchAtoms (ignoreCase ?p) (atoms ?p) s i =
             (if occursAt cs t s i
                 \<and> (if ww then isWordBoundary s i \<and> isWordBoundary s (i + length t) else True)
              then Some (i + length t) else None)" if "i \<le> length s" for s i
  proof (cases ww)
    case True
    with matchAtoms_literals [OF that, of cs t "[WordBoundary]"] show ?thesis
      unfolding ic by simp
  next
    case False
    with matchAtoms_literals [OF that, of cs t "[]"] show ?thesis
      unfolding ic by simp
  qed
  show ?thesis
    apply (rule exI [of _ ?p])
    apply (intro conjI)
          apply (rule createSearchPattern_value)
         apply simp
        apply (rule compiled)
       apply simp
      apply (rule g)
     apply (rule ic)
    using m apply blast
    done
qed

theorem createSearchPattern_literal_witness:
  "\<exists>p. createSearchPattern ''a.b'' False True = Inr p
     \<and> originalSource p = [backslash, CHR ''b'', CHR ''a'', backslash, CHR ''.'', CHR ''b'', backslash, CHR ''b'']
     \<and> atoms p = [WordBoundary, Lit CHR ''a'', Lit CHR ''.'', Lit CHR ''b'', WordBoundary]
     \<and> global p \<and> ignoreCase p
     \<and> matchAtoms (ignoreCase p) (atoms p) ''x A.B y'' 2 = Some 5
     \<and> matchAtoms (ignoreCase p) (atoms p) ''x AxB y'' 2 = None"
proof -
  from createSearchPattern_literal [of "''a.b''" False True]
  obtain p where p: "createSearchPattern ''a.b'' False True = Inr p"
    and src: "originalSource p = (if True then [backslash, CHR ''b''] @ escapeTerm ''a.b'' @ [backslash, CHR ''b'']
                   else escapeTerm ''a.b'')"
    and at: "atoms p = (if True then WordBoundary # map Lit ''a.b'' @ [WordBoundary] else map Lit ''a.b'')"
    and g: "global p" and ic: "ignoreCase p = (\<not> False)"
    and m: "\<forall>s i. i \<le> length s \<longrightarrow>
           matchAtoms (ignoreCase p) (atoms p) s i =
             (if occursAt False ''a.b'' s i
                 \<and> (if True then isWordBoundary s i \<and> isWordBoundary s (i + length ''a.b'') else True)
              then Some (i + length ''a.b'') else None)"
    by blast
  have e: "escapeTerm ''a.b'' = [CHR ''a'', backslash, CHR ''.'', CHR ''b'']" by code_simp
  have m1: "(if occursAt False ''a.b'' ''x A.B y'' 2
                 \<and> (if True then isWordBoundary ''x A.B y'' 2 \<and> isWordBoundary ''x A.B y'' (2 + length ''a.b'') else True)
              then Some (2 + length ''a.b'') else None) = Some (5::nat)" by code_simp
  have m2: "(if occursAt False ''a.b'' ''x AxB y'' 2
                 \<and> (if True then isWordBoundary ''x AxB y'' 2 \<and> isWordBoundary ''x AxB y'' (2 + length ''a.b'') else True)
              then Some (2 + length ''a.b'') else None) = (None :: nat option)" by code_simp
  have l1: "(2::nat) \<le> length ''x A.B y''" by simp
  have l2: "(2::nat) \<le> length ''x AxB y''" by simp
  show ?thesis
    apply (rule exI [of _ p])
    using p src at g ic m [rule_format, OF l1] m [rule_format, OF l2] e m1 m2
    by simp
qed

text \<open>
  Case folding beyond ASCII: a pattern for \<^verbatim>\<open>0xE9\<close> (e with acute accent) built
  without \<^verbatim>\<open>caseSensitive\<close> matches \<^verbatim>\<open>0xC9\<close>, its capital; the division sign \<^verbatim>\<open>0xF7\<close> does
  not match the multiplication sign \<^verbatim>\<open>0xD7\<close>, 32 below it.
\<close>

lemma createSearchPattern_latin1:
  "map_sum id (\<lambda>p. (matchAtoms (ignoreCase p) (atoms p) [CHR 0xC9] 0,
                     matchAtoms (ignoreCase p) (atoms p) [CHR 0xE9] 0))
     (createSearchPattern [CHR 0xE9] False False) = Inr (Some 1, Some 1)
   \<and> map_sum id (\<lambda>p. matchAtoms (ignoreCase p) (atoms p) [CHR 0xC9] 0)
     (createSearchPattern [CHR 0xE9] True False) = Inr None
   \<and> map_sum id (\<lambda>p. matchAtoms (ignoreCase p) (atoms p) [CHR 0xD7] 0)
     (createSearchPattern [CHR 0xF7] False False) = Inr None"
  by code_simp

lemma performSearch_nonblank:
  "t \<noteq> [] \<Longrightarrow> trim t \<noteq> [] \<Longrightarrow>
     \<exists>cs ww cats. performSearch this fs igFolder t options =
                    tryCatch (searchBody this fs igFolder t cs ww cats)"
  by (simp add: performSearch_def Let_def) blast

lemma searchBody_shape:
  "searchBody this fs igFolder t cs ww cats = Inr r \<Longrightarrow>
     error r = None \<and> truncated r = Some (totalMatches r > maxResults this)"
  by (auto simp: searchBody_def Let_def split: sum.splits prod.splits)

text \<open>
  C10. The record that \<^verbatim>\<open>performSearch\<close> returns for an empty or blank term, and the
  one that the \<^verbatim>\<open>catch\<close> clause builds, have no \<^verbatim>\<open>truncated\<close> field; every search
  with a term that is not blank and that ends without error returns a record with the
  field, whose value says whether \<^verbatim>\<open>totalMatches\<close> is above \<^verbatim>\<open>maxResults\<close>. So the field
  is missing exactly on the short circuit and on an error.
\<close>

theorem performSearch_truncated_field:
  "(searchTerm' = [] \<or> trim searchTerm' = [] \<longrightarrow>
      truncated (performSearch this fs igFolder searchTerm' options) = None)
   \<and> truncated (tryCatch (Inl e)) = None
   \<and> (searchTerm' \<noteq> [] \<and> trim searchTerm' \<noteq> []
        \<and> error (performSearch this fs igFolder searchTerm' options) = None \<longrightarrow>
      truncated (performSearch this fs igFolder searchTerm' options) =
        Some (totalMatches (performSearch this fs igFolder searchTerm' options) > maxResults this))
   \<and> ((truncated (performSearch this fs igFolder searchTerm' options) = None) =
        (searchTerm' = [] \<or> trim searchTerm' = []
         \<or> error (performSearch this fs igFolder searchTerm' options) \<noteq> None))"
proof (cases "searchTerm' = [] \<or> trim searchTerm' = []")
  case True
  then show ?thesis
    by (auto simp: performSearch_def Let_def tryCatch_def searchFailed_def)
next
  case False
  then obtain cs ww cats where
    ps: "performSearch this fs igFolder searchTerm' options =
           tryCatch (searchBody this fs igFolder searchTerm' cs ww cats)"
    using performSearch_nonblank [of searchTerm' this fs igFolder options] by blast
  define body where "body = searchBody this fs igFolder searchTerm' cs ww cats"
  have shape: "(error (tryCatch body) \<noteq> None \<and> truncated (tryCatch body) = None)
               \<or> (error (tryCatch body) = None
                   \<and> truncated (tryCatch body) =
                       Some (totalMatches (tryCatch body) > maxResults this))"
  proof (cases body)
    case (Inl thrown)
    then show ?thesis by (simp add: tryCatch_def searchFailed_def)
  next
    case (Inr r)
    with searchBody_shape [of this fs igFolder searchTerm' cs ww cats r] show ?thesis
      by (simp add: tryCatch_def body_def)
  qed
  have handler: "truncated (tryCatch (Inl e)) = None"
    by (simp add: tryCatch_def searchFailed_def)
  from False shape handler show ?thesis
    unfolding ps body_def [symmetric] by auto
qed

theorem performSearch_truncated_field_witness:
  "truncated (performSearch constructor exampleTree ''/ig'' ''  '' (Some exampleOptions)) = None
   \<and> truncated (tryCatch (Inl (Error ''Invalid regular expression''))) = None
   \<and> truncated (performSearch constructor exampleTree ''/ig'' ''Patient'' (Some exampleOptions)) =
       Some False"
proof -
  have blank: "''  '' = [] \<or> trim ''  '' = []" by code_simp
  have nonblank: "''Patient'' \<noteq> [] \<and> trim ''Patient'' \<noteq> []
      \<and> error (performSearch constructor exampleTree ''/ig'' ''Patient'' (Some exampleOptions)) = None"
    by code_simp
  have few: "(totalMatches (performSearch constructor exampleTree ''/ig'' ''Patient''
                (Some exampleOptions)) > maxResults constructor) = False"
    by code_simp
  from performSearch_truncated_field
         [of "''  ''" constructor exampleTree "''/ig''" "Some exampleOptions"
             "Error ''Invalid regular expression''"] blank
  have one: "truncated (performSearch constructor exampleTree ''/ig'' ''  '' (Some exampleOptions)) = None"
    and two: "truncated (tryCatch (Inl (Error ''Invalid regular expression''))) = None"
    by blast+
  from performSearch_truncated_field
         [of "''Patient''" constructor exampleTree "''/ig''" "Some exampleOptions"
             "Error ''Invalid regular expression''"] nonblank
  have "truncated (performSearch constructor exampleTree ''/ig'' ''Patient'' (Some exampleOptions)) =
        Some (totalMatches (performSearch constructor exampleTree ''/ig'' ''Patient''
                (Some exampleOptions)) > maxResults constructor)"
    by blast
  then have three: "truncated (performSearch constructor exampleTree ''/ig'' ''Patient''
                      (Some exampleOptions)) = Some False"
    unfolding few .
  from one two three show ?thesis by (intro conjI)
qed

section \<open>The store and the search\<close>

text \<open>
  C3, as stated: after a completed \<^verbatim>\<open>performSearch\<close> call the stored \<^verbatim>\<open>results\<close> of the
  project equal the returned list. It fails: the search below returns one file, and the
  state stored for the project afterwards still has the empty list.
\<close>

theorem performSearch_store_counterexample:
  "results_r (fst (performSearch_run constructor exampleTree ''/ig'' ''Patient''
                    (Some exampleOptions))) \<noteq> []
   \<and> results (fst (getSearchState
                     (snd (performSearch_run constructor exampleTree ''/ig'' ''Patient''
                             (Some exampleOptions))) ''/ig'')) = []"
  by code_simp

text \<open>
  C3, amended. \<^verbatim>\<open>performSearch\<close> leaves the store as it is. The stored \<^verbatim>\<open>results\<close> of a
  project are what the caller saved last with \<^verbatim>\<open>saveSearchState\<close>: once the caller has
  saved a state holding the returned list, the stored list equals the returned one; and
  after \<^verbatim>\<open>clearOutputResults\<close> the stored list is the previous stored list without the
  entries whose category starts with \<^verbatim>\<open>output\<close>.
\<close>

theorem performSearch_leaves_store:
  "snd (performSearch_run this fs igFolder searchTerm' options) = this
   \<and> fst (getSearchState (saveSearchState this igFolder state) igFolder) = state
   \<and> results (fst (getSearchState
                     (saveSearchState this igFolder
                        (state\<lparr>results :=
                                 results_r (performSearch this fs igFolder searchTerm' options)\<rparr>))
                     igFolder)) =
       results_r (performSearch this fs igFolder searchTerm' options)
   \<and> results (fst (getSearchState (clearOutputResults this igFolder) igFolder)) =
       filter (\<lambda>result. \<not> startsWith (category result) ''output'')
         (results (fst (getSearchState this igFolder)))"
  by (simp add: performSearch_run_def getSearchState_stored clearOutputResults_state)

theorem performSearch_leaves_store_witness:
  "snd (performSearch_run exampleStore exampleTree ''/ig'' ''Patient'' (Some exampleOptions)) =
     exampleStore
   \<and> results (fst (getSearchState (clearOutputResults exampleStore ''/ig'') ''/ig'')) =
       [exampleResult ''/ig/input/b.json'' ''inputResources'',
        exampleResult ''/ig/input/pagecontent/d.md'' ''inputPages'']"
proof -
  have kept: "filter (\<lambda>result. \<not> startsWith (category result) ''output'')
                (results (fst (getSearchState exampleStore ''/ig''))) =
              [exampleResult ''/ig/input/b.json'' ''inputResources'',
               exampleResult ''/ig/input/pagecontent/d.md'' ''inputPages'']"
    by code_simp
  from performSearch_leaves_store
         [of exampleStore exampleTree "''/ig''" "''Patient''" "Some exampleOptions"]
  show ?thesis
    by (simp only: kept)
qed

section \<open>Properties of the scan and of the ranking\<close>

lemma matchingLines_append: "matchingLines (xs @ ys) = matchingLines xs + matchingLines ys"
  by (simp add: matchingLines_def)

lemma matchingLines_mset: "mset xs = mset ys \<Longrightarrow> matchingLines xs = matchingLines ys"
proof -
  assume "mset xs = mset ys"
  then have "mset (map (\<lambda>result. int (length (matches result))) xs) =
             mset (map (\<lambda>result. int (length (matches result))) ys)"
    by simp
  then have "sum_mset (mset (map (\<lambda>result. int (length (matches result))) xs)) =
             sum_mset (mset (map (\<lambda>result. int (length (matches result))) ys))"
    by (rule arg_cong)
  then show ?thesis
    unfolding matchingLines_def sum_mset_sum_list .
qed

lemma length_le_matchingLines:
  "\<forall>r \<in> set rs. matches r \<noteq> [] \<Longrightarrow> int (length rs) \<le> matchingLines rs"
proof (induction rs)
  case Nil
  show ?case by (simp add: matchingLines_def)
next
  case (Cons r rs)
  then have "1 \<le> int (length (matches r))" by (cases "matches r") auto
  with Cons show ?case by (simp add: matchingLines_def)
qed

lemma searchInFile_Some:
  "searchInFile this fs f pattern c = Some r \<Longrightarrow>
     matches r \<noteq> [] \<and> category r = c \<and> countsItsMatches r"
  by (auto simp: searchInFile_def countsItsMatches_def split: sum.splits if_splits)

text \<open>One round of the loop over the files either leaves the list or adds one result.\<close>

lemma searchFiles_step:
  "searchFiles this fs cfg pattern c m (f # files) acc = acc
   \<or> searchFiles this fs cfg pattern c m (f # files) acc =
       searchFiles this fs cfg pattern c m files acc
   \<or> (\<exists>r. int (length acc) < m \<and> searchInFile this fs f pattern c = Some r
          \<and> searchFiles this fs cfg pattern c m (f # files) acc =
              searchFiles this fs cfg pattern c m files (acc @ [r]))"
proof (cases "int (length acc) \<ge> m")
  case True
  then show ?thesis by simp
next
  case False
  show ?thesis
  proof (cases "case filter_l cfg of None \<Rightarrow> False | Some flt \<Rightarrow> \<not> applyFilter fs flt f")
    case True
    with False show ?thesis by simp
  next
    case unfiltered: False
    show ?thesis
    proof (cases "searchInFile this fs f pattern c")
      case None
      with False unfiltered show ?thesis by simp
    next
      case (Some r)
      with False unfiltered show ?thesis by simp
    qed
  qed
qed

lemma searchFiles_matches:
  "\<forall>r \<in> set acc. matches r \<noteq> [] \<and> category r = c \<and> countsItsMatches r \<Longrightarrow>
     \<forall>r \<in> set (searchFiles this fs cfg pattern c m files acc).
       matches r \<noteq> [] \<and> category r = c \<and> countsItsMatches r"
proof (induction files arbitrary: acc)
  case Nil
  then show ?case by simp
next
  case (Cons f files)
  from searchFiles_step [of this fs cfg pattern c m f files acc]
  consider "searchFiles this fs cfg pattern c m (f # files) acc = acc"
    | "searchFiles this fs cfg pattern c m (f # files) acc =
         searchFiles this fs cfg pattern c m files acc"
    | r where "searchInFile this fs f pattern c = Some r"
        "searchFiles this fs cfg pattern c m (f # files) acc =
           searchFiles this fs cfg pattern c m files (acc @ [r])"
    by blast
  then show ?case
  proof cases
    case 1
    with Cons.prems show ?thesis by (simp only:)
  next
    case 2
    with Cons.IH [OF Cons.prems] show ?thesis by (simp only:)
  next
    case 3
    have "\<forall>x \<in> set (acc @ [r]). matches x \<noteq> [] \<and> category x = c \<and> countsItsMatches x"
      using Cons.prems searchInFile_Some [OF 3(1)] by simp
    from Cons.IH [OF this] 3(2) show ?thesis by (simp only:)
  qed
qed

lemma searchFiles_length:
  "int (length (searchFiles this fs cfg pattern c m files acc)) \<le> max (int (length acc)) m"
proof (induction files arbitrary: acc)
  case Nil
  show ?case by simp
next
  case (Cons f files)
  from searchFiles_step [of this fs cfg pattern c m f files acc]
  consider "searchFiles this fs cfg pattern c m (f # files) acc = acc"
    | "searchFiles this fs cfg pattern c m (f # files) acc =
         searchFiles this fs cfg pattern c m files acc"
    | r where "int (length acc) < m"
        "searchFiles this fs cfg pattern c m (f # files) acc =
           searchFiles this fs cfg pattern c m files (acc @ [r])"
    by blast
  then show ?case
  proof cases
    case 1
    then show ?thesis by simp
  next
    case 2
    with Cons.IH [of acc] show ?thesis by (simp only:)
  next
    case 3
    from Cons.IH [of "acc @ [r]"] 3(1)
    have "int (length (searchFiles this fs cfg pattern c m files (acc @ [r]))) \<le> max (int (length acc)) m"
      by simp
    with 3(2) show ?thesis by (simp only:)
  qed
qed

lemma searchLocations_matches:
  "\<forall>r \<in> set acc. matches r \<noteq> [] \<and> category r = c \<and> countsItsMatches r \<Longrightarrow>
     \<forall>r \<in> set (searchLocations this fs pattern c m locs acc).
       matches r \<noteq> [] \<and> category r = c \<and> countsItsMatches r"
proof (induction locs arbitrary: acc)
  case Nil
  then show ?case by simp
next
  case (Cons loc locs)
  let ?files = "findFilesInPath fs (path loc) (extensions loc) (recursive loc)"
  let ?acc = "searchFiles this fs loc pattern c m ?files acc"
  have "searchLocations this fs pattern c m (loc # locs) acc = acc
        \<or> searchLocations this fs pattern c m (loc # locs) acc =
            searchLocations this fs pattern c m locs acc
        \<or> searchLocations this fs pattern c m (loc # locs) acc =
            searchLocations this fs pattern c m locs ?acc"
    by (simp add: Let_def)
  with Cons.prems Cons.IH [OF Cons.prems] Cons.IH [OF searchFiles_matches [OF Cons.prems]]
  show ?case
    by (elim disjE) (simp_all only:)
qed

lemma searchLocations_length:
  "int (length (searchLocations this fs pattern c m locs acc)) \<le> max (int (length acc)) m"
proof (induction locs arbitrary: acc)
  case Nil
  show ?case by simp
next
  case (Cons loc locs)
  let ?files = "findFilesInPath fs (path loc) (extensions loc) (recursive loc)"
  let ?acc = "searchFiles this fs loc pattern c m ?files acc"
  have "int (length (searchLocations this fs pattern c m locs ?acc)) \<le> max (int (length ?acc)) m"
    by (rule Cons.IH)
  also have "\<dots> \<le> max (int (length acc)) m"
    using searchFiles_length [of this fs loc pattern c m ?files acc] by simp
  finally have through: "int (length (searchLocations this fs pattern c m locs ?acc)) \<le> max (int (length acc)) m" .
  have "searchLocations this fs pattern c m (loc # locs) acc = acc
        \<or> searchLocations this fs pattern c m (loc # locs) acc =
            searchLocations this fs pattern c m locs acc
        \<or> searchLocations this fs pattern c m (loc # locs) acc =
            searchLocations this fs pattern c m locs ?acc"
    by (simp add: Let_def)
  moreover have "int (length acc) \<le> max (int (length acc)) m" by simp
  ultimately show ?case
    using through Cons.IH [of acc]
    by (elim disjE) (simp_all only:)
qed

lemma searchCategory_matches:
  "\<forall>r \<in> set (searchCategory this fs igFolder c pattern m).
     matches r \<noteq> [] \<and> category r = c \<and> countsItsMatches r"
  unfolding searchCategory_def by (rule searchLocations_matches) simp

lemma searchCategory_length:
  "int (length (searchCategory this fs igFolder c pattern m)) \<le> max 0 m"
  unfolding searchCategory_def
  using searchLocations_length [of this fs pattern c m "getCategoryPaths fs igFolder c" "[]"]
  by simp

text \<open>
  The invariant of the loop over the categories: the running total is the number of
  matching lines of the results so far, every result has a matching line, and there are
  no more results than the budget allows.
\<close>

lemma searchCategories_invariant:
  assumes "searchCategories this fs igFolder pattern entries acc running = (acc', running')"
    and "running = matchingLines acc"
    and "\<forall>r \<in> set acc. matches r \<noteq> []"
    and "int (length acc) \<le> max 0 (maxResults this)"
  shows "running' = matchingLines acc' \<and> (\<forall>r \<in> set acc'. matches r \<noteq> [])
         \<and> int (length acc') \<le> max 0 (maxResults this)"
  using assms
proof (induction entries arbitrary: acc running)
  case Nil
  from Nil.prems(1) have "acc' = acc" "running' = running" by simp_all
  with Nil.prems(2-4) show ?case by simp
next
  case (Cons entry entries)
  obtain categoryName enabled where entry: "entry = (categoryName, enabled)"
    by (cases entry)
  show ?case
  proof (cases "enabled \<and> running < maxResults this")
    case False
    then consider "\<not> enabled" | "enabled" "running \<ge> maxResults this" by linarith
    then show ?thesis
    proof cases
      case 1
      with Cons.prems(1) entry
      have "searchCategories this fs igFolder pattern entries acc running = (acc', running')"
        by simp
      from Cons.IH [OF this Cons.prems(2-4)] show ?thesis .
    next
      case 2
      with Cons.prems(1) entry have "(acc, running) = (acc', running')" by simp
      then have "acc' = acc" "running' = running" by simp_all
      with Cons.prems(2-4) show ?thesis by simp
    qed
  next
    case True
    let ?cr = "searchCategory this fs igFolder categoryName pattern (maxResults this - running)"
    from True Cons.prems(1) entry
    have run: "searchCategories this fs igFolder pattern entries (acc @ ?cr)
                 (running + matchingLines ?cr) = (acc', running')"
      by (simp add: Let_def matchingLines_def)
    have total: "running + matchingLines ?cr = matchingLines (acc @ ?cr)"
      using Cons.prems(2) by (simp add: matchingLines_append)
    have lines: "\<forall>r \<in> set (acc @ ?cr). matches r \<noteq> []"
      using Cons.prems(3) searchCategory_matches [of this fs igFolder categoryName pattern "maxResults this - running"]
      by auto
    have "int (length acc) \<le> running"
      using length_le_matchingLines [OF Cons.prems(3)] Cons.prems(2) by simp
    moreover have "int (length ?cr) \<le> maxResults this - running"
      using searchCategory_length [of this fs igFolder categoryName pattern "maxResults this - running"] True
      by simp
    ultimately have budget: "int (length (acc @ ?cr)) \<le> max 0 (maxResults this)"
      by simp
    from Cons.IH [OF run total lines budget] show ?thesis .
  qed
qed

text \<open>A category that yields a result is one of the six: any other name has no location.\<close>

lemma categoryTable_unknown:
  "c \<notin> set categoryNames \<Longrightarrow> categoryTable igFolder c = []"
proof -
  assume "c \<notin> set categoryNames"
  then have "c \<noteq> ''fsh''" "c \<noteq> ''inputResources''" "c \<noteq> ''inputPages''"
    "c \<noteq> ''translations''" "c \<noteq> ''outputResources''" "c \<noteq> ''outputHtml''"
    by (simp_all add: categoryNames_def defaultSearchState_def)
  then show ?thesis by (simp add: categoryTable_def)
qed

lemma getCategoryPaths_filter:
  "getCategoryPaths fs igFolder c =
     filter (\<lambda>loc. existsSync fs (path loc)) (categoryTable igFolder c)"
  by (simp add: getCategoryPaths_def categoryTable_def resourceExtensions_def Let_def)

lemma searchCategory_known:
  "\<forall>r \<in> set (searchCategory this fs igFolder c pattern m).
     category r \<in> set categoryNames \<and> countsItsMatches r"
proof (cases "c \<in> set categoryNames")
  case True
  with searchCategory_matches [of this fs igFolder c pattern m] show ?thesis by auto
next
  case False
  then have "getCategoryPaths fs igFolder c = []"
    by (simp add: getCategoryPaths_filter categoryTable_unknown)
  then show ?thesis by (simp add: searchCategory_def)
qed

lemma searchCategories_known:
  assumes "searchCategories this fs igFolder pattern entries acc running = (acc', running')"
    and "\<forall>r \<in> set acc. category r \<in> set categoryNames \<and> countsItsMatches r"
  shows "\<forall>r \<in> set acc'. category r \<in> set categoryNames \<and> countsItsMatches r"
  using assms
proof (induction entries arbitrary: acc running)
  case Nil
  from Nil.prems(1) have "acc' = acc" by simp
  with Nil.prems(2) show ?case by simp
next
  case (Cons entry entries)
  obtain categoryName enabled where entry: "entry = (categoryName, enabled)"
    by (cases entry)
  let ?cr = "searchCategory this fs igFolder categoryName pattern (maxResults this - running)"
  let ?more = "sum_list (map (\<lambda>result. int (length (matches result))) ?cr)"
  have "searchCategories this fs igFolder pattern entries acc running = (acc', running')
        \<or> (acc, running) = (acc', running')
        \<or> searchCategories this fs igFolder pattern entries (acc @ ?cr) (running + ?more)
            = (acc', running')"
    using Cons.prems(1) entry by (simp add: Let_def split: if_splits)
  then consider
      "searchCategories this fs igFolder pattern entries acc running = (acc', running')"
    | "acc' = acc"
    | "searchCategories this fs igFolder pattern entries (acc @ ?cr) (running + ?more)
         = (acc', running')"
    by auto
  then show ?case
  proof cases
    case 1
    from Cons.IH [OF this Cons.prems(2)] show ?thesis .
  next
    case 2
    with Cons.prems(2) show ?thesis by simp
  next
    case 3
    have "\<forall>r \<in> set (acc @ ?cr). category r \<in> set categoryNames \<and> countsItsMatches r"
      using Cons.prems(2)
        searchCategory_known [of this fs igFolder categoryName pattern "maxResults this - running"]
      by auto
    from Cons.IH [OF 3 this] show ?thesis .
  qed
qed

lemma extendRun_mset:
  "extendRun comparefn st isDescending previous run rest = (run', rest', st') \<Longrightarrow>
     mset run' + mset rest' = mset run + mset rest"
proof (induction rest arbitrary: st previous run)
  case Nil
  then show ?case by simp
next
  case (Cons current rest)
  obtain order st1 where c: "comparefn st current previous = (order, st1)"
    by (cases "comparefn st current previous")
  define stop where "stop = (if isDescending then order \<ge> 0 else order < 0)"
  have step: "extendRun comparefn st isDescending previous run (current # rest) =
                (if stop then (run, current # rest, st1)
                 else extendRun comparefn st1 isDescending current (run @ [current]) rest)"
    using c by (simp add: stop_def)
  show ?case
  proof (cases stop)
    case True
    with Cons.prems step have "(run, current # rest, st1) = (run', rest', st')" by simp
    then have "run' = run" "rest' = current # rest" by simp_all
    then show ?thesis by simp
  next
    case False
    with Cons.prems step
    have "extendRun comparefn st1 isDescending current (run @ [current]) rest = (run', rest', st')"
      by simp
    from Cons.IH [OF this] show ?thesis by simp
  qed
qed

lemma countAndMakeRun_mset:
  assumes "countAndMakeRun comparefn st xs = (run, remaining, st')"
  shows "mset run + mset remaining = mset xs"
proof (cases xs)
  case Nil
  with assms show ?thesis by simp
next
  case (Cons elementHigh tail)
  show ?thesis
  proof (cases tail)
    case Nil
    with Cons assms show ?thesis by auto
  next
    case (Cons elementLow rest)
    with \<open>xs = elementHigh # tail\<close> have xs: "xs = elementHigh # elementLow # rest" by simp
    obtain order st1 where c: "comparefn st elementLow elementHigh = (order, st1)"
      by (cases "comparefn st elementLow elementHigh")
    obtain r0 rem0 st2 where e:
      "extendRun comparefn st1 (order < 0) elementLow [elementHigh, elementLow] rest = (r0, rem0, st2)"
      by (cases "extendRun comparefn st1 (order < 0) elementLow [elementHigh, elementLow] rest")
    from assms xs c e
    have "(if order < 0 then rev r0 else r0, rem0, st2) = (run, remaining, st')"
      by simp
    then have "remaining = rem0" "mset run = mset r0"
      by (auto split: if_splits)
    with extendRun_mset [OF e] xs show ?thesis by simp
  qed
qed

lemma binaryInsertionSort_mset:
  "mset (fst (binaryInsertionSort comparefn st placed rest)) = mset placed + mset rest"
proof (induction rest arbitrary: st placed)
  case Nil
  show ?case by simp
next
  case (Cons pivot rest)
  obtain left st1 where b: "binarySearch comparefn st pivot placed 0 (length placed) = (left, st1)"
    by (cases "binarySearch comparefn st pivot placed 0 (length placed)")
  have "mset (take left placed) + mset (drop left placed) = mset placed"
    by (metis append_take_drop_id mset_append)
  then have placed: "mset (take left placed @ pivot # drop left placed) = add_mset pivot (mset placed)"
    by simp
  have "binaryInsertionSort comparefn st placed (pivot # rest) =
          binaryInsertionSort comparefn st1 (take left placed @ pivot # drop left placed) rest"
    using b by (simp del: binarySearch.simps)
  then show ?case
    using Cons.IH [of st1 "take left placed @ pivot # drop left placed"] placed
    by (simp del: binarySearch.simps)
qed

lemma array_sort_mset: "mset (fst (array_sort comparefn st xs)) = mset xs"
proof (cases "length xs < 2")
  case True
  then show ?thesis by (simp add: array_sort_def)
next
  case False
  obtain run remaining st1 where c: "countAndMakeRun comparefn st xs = (run, remaining, st1)"
    by (cases "countAndMakeRun comparefn st xs") auto
  from False c have "array_sort comparefn st xs = binaryInsertionSort comparefn st1 run remaining"
    by (simp add: array_sort_def)
  then show ?thesis
    using binaryInsertionSort_mset [of comparefn st1 run remaining] countAndMakeRun_mset [OF c]
    by simp
qed

lemma slice0_all: "int (length xs) \<le> max 0 n \<Longrightarrow> slice0 xs n = xs"
  by (auto simp: slice0_def)

lemma slice0_length: "0 \<le> n \<Longrightarrow> int (length (slice0 xs n)) \<le> n"
  by (auto simp: slice0_def)

text \<open>
  What the \<^verbatim>\<open>try\<close> block does. With \<^verbatim>\<open>categories\<close> null it throws the TypeError of
  \<^verbatim>\<open>Object.entries\<close>. With any other \<^verbatim>\<open>categories\<close> it returns: the returned list is the
  whole sorted list (the \<^verbatim>\<open>slice\<close> cuts nothing off), and the total is the number of its
  matching lines.
\<close>

lemma searchBody_null:
  "searchBody this fs igFolder t cs ww Null =
     Inl (Error ''Cannot convert undefined or null to object'')"
proof -
  have "Object_entries Null = Inl (Error ''Cannot convert undefined or null to object'')"
    by (simp add: Object_entries_def)
  moreover obtain pattern where "createSearchPattern t cs ww = Inr pattern"
    using createSearchPattern_value by blast
  ultimately show ?thesis by (simp add: searchBody_def)
qed

lemma searchBody_value:
  "\<exists>found. searchBody this fs igFolder t cs ww (Defined entries) =
             Inr \<lparr>results_r = found, totalMatches = matchingLines found, error = None,
                  truncated = Some (matchingLines found > maxResults this)\<rparr>
           \<and> int (length found) \<le> max 0 (maxResults this)
           \<and> (\<forall>r \<in> set found. matches r \<noteq> [] \<and> category r \<in> set categoryNames
                                \<and> countsItsMatches r)"
proof -
  obtain pattern where p: "createSearchPattern t cs ww = Inr pattern"
    using createSearchPattern_value by blast
  obtain acc running where sc:
    "searchCategories this fs igFolder pattern entries [] 0 = (acc, running)"
    by (cases "searchCategories this fs igFolder pattern entries [] 0")
  have inv: "running = matchingLines acc \<and> (\<forall>r \<in> set acc. matches r \<noteq> [])
             \<and> int (length acc) \<le> max 0 (maxResults this)"
    by (rule searchCategories_invariant [OF sc]) (simp_all add: matchingLines_def)
  obtain sorted pattern' where so: "array_sort compareResults pattern acc = (sorted, pattern')"
    by (cases "array_sort compareResults pattern acc")
  have perm: "mset sorted = mset acc"
    using array_sort_mset [of compareResults pattern acc] so by simp
  have same_lines: "matchingLines sorted = matchingLines acc"
    by (rule matchingLines_mset [OF perm])
  have same_length: "length sorted = length acc"
    by (rule mset_eq_length [OF perm])
  have same_set: "set sorted = set acc"
    by (rule mset_eq_setD [OF perm])
  have whole: "slice0 sorted (maxResults this) = sorted"
    by (rule slice0_all) (simp add: same_length inv)
  have "searchBody this fs igFolder t cs ww (Defined entries) =
          Inr \<lparr>results_r = sorted, totalMatches = matchingLines sorted, error = None,
               truncated = Some (matchingLines sorted > maxResults this)\<rparr>"
    by (simp add: searchBody_def Object_entries_def p sc so whole inv same_lines)
  moreover have "int (length sorted) \<le> max 0 (maxResults this)"
    using inv by (simp add: same_length)
  moreover have "\<forall>r \<in> set sorted. matches r \<noteq> [] \<and> category r \<in> set categoryNames
                                  \<and> countsItsMatches r"
    using inv searchCategories_known [OF sc] by (simp add: same_set)
  ultimately show ?thesis by blast
qed

text \<open>
  The three ways \<^verbatim>\<open>performSearch\<close> returns: the short circuit for a blank term, the record
  of the \<^verbatim>\<open>catch\<close> clause when \<^verbatim>\<open>categories\<close> is null, and the record of a finished search.
\<close>

lemma performSearch_value:
  "((t = [] \<or> trim t = [])
      \<and> performSearch this fs igFolder t options =
          \<lparr>results_r = [], totalMatches = 0, error = None, truncated = None\<rparr>)
   \<or> (t \<noteq> [] \<and> trim t \<noteq> [] \<and> (\<exists>given. options = Some given \<and> categories_o given = Null)
      \<and> performSearch this fs igFolder t options =
          \<lparr>results_r = [], totalMatches = 0,
           error = Some ''Cannot convert undefined or null to object'', truncated = None\<rparr>)
   \<or> (t \<noteq> [] \<and> trim t \<noteq> [] \<and> \<not> (\<exists>given. options = Some given \<and> categories_o given = Null)
      \<and> (\<exists>found. performSearch this fs igFolder t options =
                    \<lparr>results_r = found, totalMatches = matchingLines found, error = None,
                     truncated = Some (matchingLines found > maxResults this)\<rparr>
                  \<and> int (length found) \<le> max 0 (maxResults this)
                  \<and> (\<forall>r \<in> set found. matches r \<noteq> [] \<and> category r \<in> set categoryNames
                                       \<and> countsItsMatches r)))"
proof (cases "t = [] \<or> trim t = []")
  case True
  then show ?thesis by (auto simp: performSearch_def Let_def)
next
  case False
  define opts where "opts = (case options of None \<Rightarrow> defaultOptions | Some given \<Rightarrow> given)"
  define cs where "cs = (case caseSensitive_o opts of None \<Rightarrow> False | Some b \<Rightarrow> b)"
  define ww where "ww = (case wholeWords_o opts of None \<Rightarrow> False | Some b \<Rightarrow> b)"
  define cats where "cats = (case categories_o opts of Undefined \<Rightarrow> Defined [] | given \<Rightarrow> given)"
  from False have ps: "performSearch this fs igFolder t options =
      tryCatch (searchBody this fs igFolder t cs ww cats)"
    by (simp add: performSearch_def Let_def opts_def cs_def ww_def cats_def)
  have null_iff: "(\<exists>given. options = Some given \<and> categories_o given = Null) = (cats = Null)"
    by (cases options; cases "categories_o opts")
       (auto simp: opts_def cats_def defaultOptions_def)
  show ?thesis
  proof (cases "cats = Null")
    case True
    then have "searchBody this fs igFolder t cs ww cats =
                 Inl (Error ''Cannot convert undefined or null to object'')"
      by (simp add: searchBody_null)
    with True False null_iff show ?thesis
      unfolding ps by (simp add: tryCatch_def searchFailed_def message_def)
  next
    case notnull: False
    then have "\<exists>entries. cats = Defined entries"
      by (cases "categories_o opts") (simp_all add: cats_def)
    then obtain entries where cats: "cats = Defined entries" by blast
    from searchBody_value [of this fs igFolder t cs ww entries]
    obtain found where
      "searchBody this fs igFolder t cs ww (Defined entries) =
         Inr \<lparr>results_r = found, totalMatches = matchingLines found, error = None,
              truncated = Some (matchingLines found > maxResults this)\<rparr>"
      and "int (length found) \<le> max 0 (maxResults this)"
      and "\<forall>r \<in> set found. matches r \<noteq> [] \<and> category r \<in> set categoryNames \<and> countsItsMatches r"
      by blast
    with False notnull null_iff show ?thesis
      unfolding ps cats by (auto simp: tryCatch_def)
  qed
qed

text \<open>
  Every result of a search carries one of the six category names and has a matching
  line: result lists that come from \<^verbatim>\<open>performSearch\<close> are of the kind
  \<^verbatim>\<open>clearOutputResults\<close> is proved for.
\<close>

lemma performSearch_categories:
  "\<forall>r \<in> set (results_r (performSearch this fs igFolder t options)).
     matches r \<noteq> [] \<and> category r \<in> set categoryNames"
  using performSearch_value [of t this fs igFolder options] by auto

section \<open>Failures\<close>





section \<open>The result budget\<close>

lemma manyLines_summary:
  "summary (performSearch constructor manyLines ''/ig'' ''a'' (Some pagesOnly)) =
     (201, None, Some True, 1)"
  by code_simp

lemma twoCategories_summary:
  "summary (performSearch constructor twoCategories ''/ig'' ''a'' (Some pagesThenFsh)) =
     (200, None, Some False, 1)
   \<and> summary (performSearch (constructor\<lparr>maxResults := 1000\<rparr>) twoCategories ''/ig'' ''a''
               (Some pagesThenFsh)) =
     (201, None, Some False, 2)"
  by code_simp

text \<open>
  C1, as stated: the returned \<^verbatim>\<open>totalMatches\<close> never exceeds 200, and \<^verbatim>\<open>truncated\<close> is
  true whenever the true total of matches exceeds 200. Both parts fail. One page with
  201 lines that hold the term gives a total of 201. And with a page of 200 such lines
  and a \<^verbatim>\<open>sushi-config.yaml\<close> that holds the term once, the page alone uses up the budget,
  the \<^verbatim>\<open>fsh\<close> category is never scanned, and the search returns a total of 200 with
  \<^verbatim>\<open>truncated\<close> false, although 201 lines match (the total that the same search returns
  under a budget of 1000).
\<close>

theorem performSearch_total_counterexample:
  "totalMatches (performSearch constructor manyLines ''/ig'' ''a'' (Some pagesOnly)) = 201
   \<and> error (performSearch constructor manyLines ''/ig'' ''a'' (Some pagesOnly)) = None
   \<and> totalMatches (performSearch (constructor\<lparr>maxResults := 1000\<rparr>) twoCategories ''/ig'' ''a''
                     (Some pagesThenFsh)) = 201
   \<and> totalMatches (performSearch constructor twoCategories ''/ig'' ''a'' (Some pagesThenFsh)) = 200
   \<and> truncated (performSearch constructor twoCategories ''/ig'' ''a'' (Some pagesThenFsh)) =
       Some False"
  using manyLines_summary twoCategories_summary by (simp add: summary_def)

text \<open>
  C1, amended. With a budget that is not negative (the constructor sets 200), the number
  of files returned never exceeds the budget, and whenever the returned \<^verbatim>\<open>totalMatches\<close>
  exceeds the budget the \<^verbatim>\<open>truncated\<close> flag is true.
\<close>

theorem performSearch_budget:
  assumes "0 \<le> maxResults this"
  shows "int (length (results_r (performSearch this fs igFolder searchTerm' options)))
           \<le> maxResults this
       \<and> (totalMatches (performSearch this fs igFolder searchTerm' options) > maxResults this
            \<longrightarrow> truncated (performSearch this fs igFolder searchTerm' options) = Some True)"
  using performSearch_value [of searchTerm' this fs igFolder options] assms
  by auto

theorem performSearch_budget_witness:
  "int (length (results_r (performSearch constructor manyLines ''/ig'' ''a'' (Some pagesOnly))))
     \<le> 200
   \<and> truncated (performSearch constructor manyLines ''/ig'' ''a'' (Some pagesOnly)) = Some True"
proof -
  have budget: "0 \<le> maxResults constructor" "maxResults constructor = 200"
    by (simp_all add: constructor_def)
  have many: "totalMatches (performSearch constructor manyLines ''/ig'' ''a'' (Some pagesOnly))
                > maxResults constructor"
    using manyLines_summary by (simp add: summary_def budget(2))
  from performSearch_budget [OF budget(1), of manyLines "''/ig''" "''a''" "Some pagesOnly"] many
  show ?thesis
    unfolding budget(2) by blast
qed

section \<open>The total\<close>

text \<open>
  C2, as stated: the returned \<^verbatim>\<open>totalMatches\<close> is the sum of \<^verbatim>\<open>matchCount\<close> over all line
  matches of all returned files. It fails: for one page whose only line holds the term
  twice, the sum of \<^verbatim>\<open>matchCount\<close> is 2 and \<^verbatim>\<open>totalMatches\<close> is 1.
\<close>

theorem performSearch_matchCount_counterexample:
  "totalMatches (performSearch constructor twoOnOneLine ''/ig'' ''a'' (Some pagesOnly)) = 1
   \<and> sum_list (map matchCount
        (concat (map matches
           (results_r (performSearch constructor twoOnOneLine ''/ig'' ''a'' (Some pagesOnly))))))
      = 2"
  by code_simp

text \<open>
  C2, amended. For every \<^verbatim>\<open>performSearch\<close> call, the returned \<^verbatim>\<open>totalMatches\<close> equals the
  number of line matches of the returned files: the sum, over the returned files, of the
  length of \<^verbatim>\<open>matches\<close>. The sum of \<^verbatim>\<open>matchCount\<close> over the line matches of a returned file
  is the \<^verbatim>\<open>totalMatches\<close> field of that file.
\<close>

theorem performSearch_total_lines:
  "totalMatches (performSearch this fs igFolder searchTerm' options) =
     sum_list (map (\<lambda>result. int (length (matches result)))
                 (results_r (performSearch this fs igFolder searchTerm' options)))
   \<and> (\<forall>result \<in> set (results_r (performSearch this fs igFolder searchTerm' options)).
        totalMatches_f result = sum_list (map matchCount (matches result)))"
  using performSearch_value [of searchTerm' this fs igFolder options]
  by (auto simp: matchingLines_def countsItsMatches_def)

theorem performSearch_total_lines_witness:
  "totalMatches (performSearch constructor twoOnOneLine ''/ig'' ''a'' (Some pagesOnly)) = 1
   \<and> map totalMatches_f
       (results_r (performSearch constructor twoOnOneLine ''/ig'' ''a'' (Some pagesOnly))) = [2]"
proof -
  note lines =
    performSearch_total_lines [of constructor twoOnOneLine "''/ig''" "''a''" "Some pagesOnly"]
  have "sum_list (map (\<lambda>result. int (length (matches result)))
          (results_r (performSearch constructor twoOnOneLine ''/ig'' ''a'' (Some pagesOnly)))) = 1"
    by code_simp
  with lines
  have one: "totalMatches (performSearch constructor twoOnOneLine ''/ig'' ''a'' (Some pagesOnly)) = 1"
    by (simp only:)
  have counts: "map (\<lambda>result. sum_list (map matchCount (matches result)))
          (results_r (performSearch constructor twoOnOneLine ''/ig'' ''a'' (Some pagesOnly))) = [2]"
    by code_simp
  from lines
  have "map totalMatches_f
          (results_r (performSearch constructor twoOnOneLine ''/ig'' ''a'' (Some pagesOnly))) =
        map (\<lambda>result. sum_list (map matchCount (matches result)))
          (results_r (performSearch constructor twoOnOneLine ''/ig'' ''a'' (Some pagesOnly)))"
    by (intro map_cong refl) blast
  with counts one show ?thesis by (simp only:)
qed

section \<open>The ranking\<close>

text \<open>
  C8, evaluated where it fails. Two pages, both with the term in their base name:
  \<^verbatim>\<open>patient-a.md\<close> with three matching lines and \<^verbatim>\<open>patient-b.md\<close> with one. The search
  for \<^verbatim>\<open>patient\<close> returns \<^verbatim>\<open>patient-b.md\<close> first. The pattern is global, so the first
  \<^verbatim>\<open>test\<close> of a comparison leaves \<^verbatim>\<open>lastIndex\<close> behind the match in the first name and
  the second \<^verbatim>\<open>test\<close> starts there and misses the match in the second name: the
  comparison function answers a negative number for the pair in either order.
\<close>

theorem performSearch_ranking_evaluated:
  "map (\<lambda>r. (fileName r, nameMatches ''patient'' False False (filePath r), length (matches r)))
     (results_r (performSearch constructor patientPages ''/ig'' ''patient'' (Some pagesOnly))) =
     [(''patient-b.md'', True, 1), (''patient-a.md'', True, 3)]
   \<and> (case results_r (performSearch constructor patientPages ''/ig'' ''patient'' (Some pagesOnly)) of
         [b, a] \<Rightarrow> comparedBothWays ''patient'' False False a b = Some (- 1, - 1)
       | _ \<Rightarrow> False)"
  by code_simp

end
